theory Spec2Isabelle
  imports Main
begin

section \<open>bashistdb: history store and encrypted synchronisation protocol\<close>

text \<open>
  A shallow embedding of \<^verbatim>\<open>database/database.go\<close> (bulk import, schema creation and
  migration) and of the package \<^verbatim>\<open>network\<close> (envelope codec, connection handler, client
  session). Byte sequences and Go strings are \<open>string\<close> (lists of bytes).
\<close>

subsection \<open>Errors\<close>

datatype sqlite_code = ErrConstraintPrimaryKey | ErrConstraint | ErrOtherCode

datatype error =
    EOF
  | ErrNoRows
  | SqliteError sqlite_code
  | DriverError
  | TimeParseError string
  | ErrorString string
  | LibError string

subsection \<open>The line pattern of \<^verbatim>\<open>AddFromBuffer\<close>\<close>

text \<open>
  \<^verbatim>\<open>regexp.MustCompile(`^ *[0-9]+\*? *([0-9T:+-]{24,24}) *(.*)`)\<close>

  The pattern is a sequence of greedy repetitions of one-character classes, two of them
  capturing. \<open>Rep c lo hi\<close> is the class \<open>c\<close> repeated between \<open>lo\<close> and \<open>hi\<close> times
  (\<open>None\<close>: unbounded); \<open>Cap\<close> is the same inside a capturing group. Go's regexp returns
  the match a backtracking engine finds first: each repetition takes the longest run that
  lets the rest of the pattern match. The pattern is anchored by \<^verbatim>\<open>^\<close>, so matching starts
  at the first byte only, and it has no \<^verbatim>\<open>$\<close>, so the rest of the input is ignored.
\<close>

datatype re_item =
    Rep "char \<Rightarrow> bool" nat "nat option"
  | Cap "char \<Rightarrow> bool" nat "nat option"

abbreviation NL :: char where "NL \<equiv> CHR 0x0A"

definition is_space :: "char \<Rightarrow> bool" where
  "is_space c = (c = CHR '' '')"

definition is_digit :: "char \<Rightarrow> bool" where
  "is_digit c = (c \<in> set ''0123456789'')"

definition is_star :: "char \<Rightarrow> bool" where
  "is_star c = (c = CHR ''*'')"

definition is_stamp :: "char \<Rightarrow> bool" where
  "is_stamp c = (c \<in> set ''0123456789T:+-'')"

definition is_dot :: "char \<Rightarrow> bool" where
  "is_dot c = (c \<noteq> NL)"

definition parseLine :: "re_item list" where
  "parseLine =
     [Rep is_space 0 None, Rep is_digit 1 None, Rep is_star 0 (Some 1), Rep is_space 0 None,
      Cap is_stamp 24 (Some 24), Rep is_space 0 None, Cap is_dot 0 None]"

fun item_class :: "re_item \<Rightarrow> char \<Rightarrow> bool" where
  "item_class (Rep c lo hi) = c"
| "item_class (Cap c lo hi) = c"

fun item_min :: "re_item \<Rightarrow> nat" where
  "item_min (Rep c lo hi) = lo"
| "item_min (Cap c lo hi) = lo"

fun item_max :: "re_item \<Rightarrow> nat \<Rightarrow> nat" where
  "item_max (Rep c lo None) n = n"
| "item_max (Rep c lo (Some hi)) n = min hi n"
| "item_max (Cap c lo None) n = n"
| "item_max (Cap c lo (Some hi)) n = min hi n"

fun item_captures :: "re_item \<Rightarrow> string \<Rightarrow> string list" where
  "item_captures (Rep c lo hi) s = []"
| "item_captures (Cap c lo hi) s = [s]"

text \<open>\<open>first_fit f lo n\<close> tries the lengths \<open>n, n - 1, \<dots>, lo\<close> and keeps the first success.\<close>

fun first_fit :: "(nat \<Rightarrow> 'a option) \<Rightarrow> nat \<Rightarrow> nat \<Rightarrow> 'a option" where
  "first_fit f lo 0 = (if 0 < lo then None else f 0)"
| "first_fit f lo (Suc n) =
     (if Suc n < lo then None
      else case f (Suc n) of Some r \<Rightarrow> Some r | None \<Rightarrow> first_fit f lo n)"

text \<open>The result is the text matched and the captured groups, in order.\<close>

primrec match_items :: "re_item list \<Rightarrow> string \<Rightarrow> (string \<times> string list) option" where
  "match_items [] = (\<lambda>s. Some ([], []))"
| "match_items (it # its) = (\<lambda>s.
     first_fit
       (\<lambda>k. case match_items its (drop k s) of
              None \<Rightarrow> None
            | Some (m, caps) \<Rightarrow> Some (take k s @ m, item_captures it (take k s) @ caps))
       (item_min it)
       (item_max it (length (takeWhile (item_class it) s))))"

text \<open>
  \<^verbatim>\<open>FindStringSubmatch\<close>: nil (the empty list) when there is no match, otherwise the whole
  match followed by the groups.
\<close>

definition FindStringSubmatch :: "re_item list \<Rightarrow> string \<Rightarrow> string list" where
  "FindStringSubmatch re s =
     (case match_items re s of None \<Rightarrow> [] | Some (m, caps) \<Rightarrow> m # caps)"

definition TrimSuffix :: "string \<Rightarrow> string \<Rightarrow> string" where
  "TrimSuffix s suffix =
     (if length suffix \<le> length s \<and> drop (length s - length suffix) s = suffix
      then take (length s - length suffix) s else s)"

subsection \<open>Reading lines\<close>

text \<open>
  \<^verbatim>\<open>r.ReadString('\n')\<close> on a reader holding \<open>r\<close>: the data up to and including the first
  newline, the reader's remaining content, and no error; when the content ends before a
  newline, everything that was left and \<^verbatim>\<open>io.EOF\<close>.
\<close>

definition ReadString :: "string \<Rightarrow> string \<times> string \<times> error option" where
  "ReadString r =
     (case dropWhile (\<lambda>c. c \<noteq> NL) r of
        [] \<Rightarrow> (r, [], Some EOF)
      | d # rest \<Rightarrow> (takeWhile (\<lambda>c. c \<noteq> NL) r @ [d], rest, None))"

subsection \<open>The history table\<close>

text \<open>
  \<^verbatim>\<open>CREATE TABLE history (user TEXT, host TEXT, command TEXT, datetime DATETIME,
     PRIMARY KEY (user, command, datetime))\<close>

  The type \<open>'t\<close> is the value a parsed \<^verbatim>\<open>time.Time\<close> is stored as.
\<close>

record 't hrow =
  user :: string
  host :: string
  command :: string
  datetime :: "'t"

type_synonym 't history = "'t hrow list"

text \<open>
  \<^verbatim>\<open>INSERT INTO history(user, host, command, datetime) VALUES(?, ?, ?, ?)\<close>: the row is
  appended unless a row with the same primary key is there, which is the driver's
  \<^verbatim>\<open>sqlite3.ErrConstraintPrimaryKey\<close>.
\<close>

definition key_present :: "'t history \<Rightarrow> string \<Rightarrow> string \<Rightarrow> 't \<Rightarrow> bool" where
  "key_present tbl u c t = (\<exists>r \<in> set tbl. user r = u \<and> command r = c \<and> datetime r = t)"

definition insert_Exec ::
  "'t history \<Rightarrow> string \<Rightarrow> string \<Rightarrow> string \<Rightarrow> 't \<Rightarrow> error + 't history" where
  "insert_Exec tbl u h c t =
     (if key_present tbl u c t then Inl (SqliteError ErrConstraintPrimaryKey)
      else Inr (tbl @ [\<lparr>user = u, host = h, command = c, datetime = t\<rparr>]))"

subsection \<open>Formatting\<close>

fun digits :: "nat \<Rightarrow> string" where
  "digits n = (if n < 10 then [''0123456789'' ! n] else digits (n div 10) @ [''0123456789'' ! (n mod 10)])"

definition Itoa :: "int \<Rightarrow> string" where
  "Itoa i = (if i < 0 then CHR ''-'' # digits (nat (- i)) else digits (nat i))"

text \<open>\<^verbatim>\<open>fmt.Sprintf("Processed %d entries, successful %d, failed %d.", a, b, c)\<close>\<close>

definition Sprintf_stats :: "int \<Rightarrow> int \<Rightarrow> int \<Rightarrow> string" where
  "Sprintf_stats a b c =
     ''Processed '' @ Itoa a @ '' entries, successful '' @ Itoa b @ '', failed '' @ Itoa c @ ''.''"

subsection \<open>\<^verbatim>\<open>AddFromBuffer\<close>\<close>

text \<open>
  How the \<^verbatim>\<open>for\<close> loop is left: by \<^verbatim>\<open>break\<close> at end of input, with the transaction's table
  and the two counters; by \<^verbatim>\<open>tx.Rollback(); return "", err\<close>; or by \<^verbatim>\<open>return "", err\<close> with
  the transaction neither committed nor rolled back.
\<close>

datatype 't loop_exit =
    Break "'t history" int int
  | RollbackReturn error
  | Return error

text \<open>
  \<open>parse\<close> stands for \<^verbatim>\<open>time.Parse(RFC3339alt, _)\<close> followed by the driver's conversion of
  the time to the stored value; \<open>None\<close> is a parse error.
\<close>

function scan_loop ::
  "(string \<Rightarrow> 't option) \<Rightarrow> string \<Rightarrow> string \<Rightarrow> 't history \<Rightarrow> string \<Rightarrow> int \<Rightarrow> int \<Rightarrow> 't loop_exit"
where
  "scan_loop parse u h tx r total' failed =
     (case ReadString r of (historyLine, r', err) \<Rightarrow>
        if err \<noteq> None then
          (if err = Some EOF then Break tx (total' + 1) failed
           else Return (ErrorString ''Error while reading stdin''))
        else
          let args = FindStringSubmatch parseLine historyLine in
          if length args \<noteq> 3 then scan_loop parse u h tx r' (total' + 1) (failed + 1)
          else
            (case parse (args ! 1) of
               None \<Rightarrow> RollbackReturn (TimeParseError (args ! 1))
             | Some t \<Rightarrow>
                 (case insert_Exec tx u h (TrimSuffix (args ! 2) [NL]) t of
                    Inr tx' \<Rightarrow> scan_loop parse u h tx' r' (total' + 1) failed
                  | Inl (SqliteError code) \<Rightarrow>
                      if code = ErrConstraintPrimaryKey
                      then scan_loop parse u h tx r' (total' + 1) (failed + 1)
                      else RollbackReturn (SqliteError code)
                  | Inl e \<Rightarrow> Return e)))"
  by pat_completeness auto

termination
proof -
  have shorter: "length r' < length r" if "(l, r', None) = ReadString r" for l r' r
  proof -
    have "length (dropWhile (\<lambda>c. c \<noteq> NL) r) \<le> length r"
      by (rule length_dropWhile_le)
    with that show ?thesis
      by (auto simp: ReadString_def split: list.splits)
  qed
  show ?thesis
    by (relation "measure (\<lambda>(parse, u, h, tx, r, total', failed). length r)")
       (auto dest: shorter)
qed

declare scan_loop.simps [simp del]

text \<open>
  The committed history table after the call, and the pair \<^verbatim>\<open>(stats, e)\<close> returned. The
  table changes only by \<^verbatim>\<open>tx.Commit()\<close>.
\<close>

definition AddFromBuffer ::
  "(string \<Rightarrow> 't option) \<Rightarrow> 't history \<Rightarrow> string \<Rightarrow> string \<Rightarrow> string
     \<Rightarrow> 't history \<times> string \<times> error option" where
  "AddFromBuffer parse db r u h =
     (case scan_loop parse u h db r 0 0 of
        Break tx total' failed \<Rightarrow>
          (let total' = total' - 1
           in (tx, Sprintf_stats total' (total' - failed) failed, None))
      | RollbackReturn e \<Rightarrow> (db, [], Some e)
      | Return e \<Rightarrow> (db, [], Some e))"

subsection \<open>A parser for the timestamp layout\<close>

text \<open>
  \<^verbatim>\<open>const RFC3339alt = "2006-01-02T15:04:05-0700"\<close>

  \<^verbatim>\<open>time.Parse\<close> belongs to Go's standard library and is a parameter of \<open>AddFromBuffer\<close>
  above. Where a concrete parser is needed, the one below is used: it reads the layout
  field by field (four digits of year, two each of month, day, hour, minute and second,
  a sign and four digits of zone offset) and rejects a month, day, hour, minute or second
  out of range, and a zone offset of more than 24 hours or more than 60 minutes.
\<close>

record gotime =
  year :: nat
  month :: nat
  day :: nat
  hour :: nat
  minute :: nat
  second :: nat
  zone :: int

definition atoi :: "string \<Rightarrow> nat option" where
  "atoi s =
     (if s \<noteq> [] \<and> list_all is_digit s
      then Some (foldl (\<lambda>n c. 10 * n + (of_char c - 48)) 0 s) else None)"

definition isLeap :: "nat \<Rightarrow> bool" where
  "isLeap y = (y mod 4 = 0 \<and> (y mod 100 \<noteq> 0 \<or> y mod 400 = 0))"

definition daysIn :: "nat \<Rightarrow> nat \<Rightarrow> nat" where
  "daysIn m y =
     (if m = 2 then (if isLeap y then 29 else 28)
      else if m \<in> {4, 6, 9, 11} then 30 else 31)"

definition slice :: "string \<Rightarrow> nat \<Rightarrow> nat \<Rightarrow> string" where
  "slice s i j = take (j - i) (drop i s)"

definition time_Parse_RFC3339alt :: "string \<Rightarrow> gotime option" where
  "time_Parse_RFC3339alt s =
     (if length s = 24 \<and> s ! 4 = CHR ''-'' \<and> s ! 7 = CHR ''-'' \<and> s ! 10 = CHR ''T''
         \<and> s ! 13 = CHR '':'' \<and> s ! 16 = CHR '':'' \<and> (s ! 19 = CHR ''+'' \<or> s ! 19 = CHR ''-'')
      then
        (case (atoi (slice s 0 4), atoi (slice s 5 7), atoi (slice s 8 10), atoi (slice s 11 13),
               atoi (slice s 14 16), atoi (slice s 17 19), atoi (slice s 20 22), atoi (slice s 22 24)) of
           (Some y, Some mo, Some d, Some hh, Some mi, Some ss, Some zh, Some zm) \<Rightarrow>
             if 1 \<le> mo \<and> mo \<le> 12 \<and> 1 \<le> d \<and> d \<le> daysIn mo y \<and> hh < 24 \<and> mi < 60 \<and> ss < 60
                \<and> zh \<le> 24 \<and> zm \<le> 60
             then Some \<lparr>year = y, month = mo, day = d, hour = hh, minute = mi, second = ss,
                         zone = (if s ! 19 = CHR ''-'' then - 1 else 1) * int ((zh * 60 + zm) * 60)\<rparr>
             else None
         | _ \<Rightarrow> None)
      else None)"

subsection \<open>Inputs as lines\<close>

text \<open>
  \<open>feed ls frag\<close> is the input made of the lines \<open>ls\<close>, each followed by a newline, and
  of a last piece \<open>frag\<close> with no newline after it.
\<close>

definition feed :: "string list \<Rightarrow> string \<Rightarrow> string" where
  "feed ls frag = concat (map (\<lambda>l. l @ [NL]) ls) @ frag"

subsection \<open>What the loop computes from one line\<close>

text \<open>
  The expressions of the loop body, named: whether \<^verbatim>\<open>len(args) == 3\<close> for the line \<open>l\<close>
  read with its newline, \<^verbatim>\<open>args[1]\<close>, and \<^verbatim>\<open>strings.TrimSuffix(args[2], "\n")\<close>.
\<close>

definition matches :: "string \<Rightarrow> bool" where
  "matches l = (length (FindStringSubmatch parseLine (l @ [NL])) = 3)"

definition stamp_of :: "string \<Rightarrow> string" where
  "stamp_of l = FindStringSubmatch parseLine (l @ [NL]) ! 1"

definition command_of :: "string \<Rightarrow> string" where
  "command_of l = TrimSuffix (FindStringSubmatch parseLine (l @ [NL]) ! 2) [NL]"

text \<open>A well-formed line matches the pattern and its timestamp parses.\<close>

definition well_formed :: "(string \<Rightarrow> 't option) \<Rightarrow> string \<Rightarrow> bool" where
  "well_formed parse l = (matches l \<and> parse (stamp_of l) \<noteq> None)"

text \<open>The rows the statement is executed with, one for each line that matches and parses.\<close>

definition parsed_rows ::
  "(string \<Rightarrow> 't option) \<Rightarrow> string \<Rightarrow> string \<Rightarrow> string list \<Rightarrow> 't history" where
  "parsed_rows parse u h ls =
     concat (map (\<lambda>l. if matches l
                        then (case parse (stamp_of l) of
                                Some t \<Rightarrow> [\<lparr>user = u, host = h, command = command_of l, datetime = t\<rparr>]
                              | None \<Rightarrow> [])
                        else []) ls)"

text \<open>The primary key of a row.\<close>

definition pkey :: "'t hrow \<Rightarrow> string \<times> string \<times> 't" where
  "pkey r = (user r, command r, datetime r)"

section \<open>The network package\<close>

subsection \<open>Messages\<close>

text \<open>
  \<^verbatim>\<open>conf.QueryParams\<close> is declared in the package \<^verbatim>\<open>configuration\<close>, which is not among the
  sources; the record has the fields \<^verbatim>\<open>handleConn\<close> reads and writes
  (\<^verbatim>\<open>User\<close>, \<^verbatim>\<open>Host\<close>, \<^verbatim>\<open>Command\<close>, \<^verbatim>\<open>Kappa\<close>, \<^verbatim>\<open>Format\<close>).
\<close>

record QueryParams =
  QUser :: string
  QHost :: string
  QCommand :: string
  Kappa :: int
  Format :: string

definition RESULT :: string where "RESULT = ''result''"
definition HISTORY :: string where "HISTORY = ''history''"
definition STATS :: string where "STATS = ''stats''"
definition QUERY :: string where "QUERY = ''query''"

record Message =
  Type :: string
  Payload :: string
  User :: string
  Hostname :: string
  QParams :: QueryParams

text \<open>Go's zero values \<^verbatim>\<open>conf.QueryParams{}\<close> and \<^verbatim>\<open>Message{}\<close>; a nil byte slice is \<open>[]\<close>.\<close>

definition QueryParams0 :: QueryParams where
  "QueryParams0 = \<lparr>QUser = [], QHost = [], QCommand = [], Kappa = 0, Format = []\<rparr>"

definition Message0 :: Message where
  "Message0 = \<lparr>Type = [], Payload = [], User = [], Hostname = [], QParams = QueryParams0\<rparr>"

subsection \<open>Connections and the libraries\<close>

text \<open>
  One end of a \<^verbatim>\<open>net.Conn\<close>: the bytes the peer has sent, the bytes written so far, the
  error a write fails with (if any), and whether \<^verbatim>\<open>Close\<close> was called. \<open>dispatch_calls\<close>
  counts the calls of \<open>encryptDispatch\<close> on the connection.
\<close>

record conn =
  incoming :: string
  outgoing :: string
  write_error :: "error option"
  closed :: bool
  dispatch_calls :: nat

text \<open>
  \<^verbatim>\<open>encoding/gob\<close> and \<^verbatim>\<open>saltsecret\<close> are libraries; the codec takes them as parameters.
  \<^item> \<open>gobEncodeMessage m\<close>: the bytes \<^verbatim>\<open>gob.NewEncoder(w).Encode(m)\<close> writes, or its error;
  \<^item> \<open>gobDecodeMessage\<close>, \<open>gobEncodeBytes\<close>, \<open>gobDecodeBytes\<close>: the same for decoding a
    \<^verbatim>\<open>Message\<close> and for a \<^verbatim>\<open>[]byte\<close>;
  \<^item> \<open>NewWriter key\<close>: \<^verbatim>\<open>saltsecret.NewWriter(&encMsg, key, saltsecret.ENCRYPT, true)\<close>: an
    error, or the encrypter, given as what \<^verbatim>\<open>Flush\<close> leaves in \<^verbatim>\<open>encMsg\<close> for the bytes
    written to it;
  \<^item> \<open>NewReader key c\<close>: \<^verbatim>\<open>saltsecret.NewReader(r, key, saltsecret.DECRYPT, false)\<close> on a
    reader of \<open>c\<close>: an error, or the bytes the decrypter yields.
\<close>

record codec =
  gobEncodeMessage :: "Message \<Rightarrow> error + string"
  gobDecodeMessage :: "string \<Rightarrow> error + Message"
  gobEncodeBytes :: "string \<Rightarrow> error + string"
  gobDecodeBytes :: "string \<Rightarrow> error + string"
  NewWriter :: "string \<Rightarrow> error + (string \<Rightarrow> error + string)"
  NewReader :: "string \<Rightarrow> string \<Rightarrow> error + string"

text \<open>Writing to the connection, as the outer gob encoder does.\<close>

definition conn_Write :: "conn \<Rightarrow> string \<Rightarrow> conn \<times> error option" where
  "conn_Write c bs =
     (case write_error c of
        Some e \<Rightarrow> (c, Some e)
      | None \<Rightarrow> (c\<lparr>outgoing := outgoing c @ bs\<rparr>, None))"

subsection \<open>\<^verbatim>\<open>encryptDispatch\<close> and \<^verbatim>\<open>receiveDecrypt\<close>\<close>

text \<open>\<^verbatim>\<open>msg -> [GOB] -> [ENCRYPT] -> [GOB] -> (dispatch)\<close>; \<open>key\<close> is \<^verbatim>\<open>conf.Key\<close>.\<close>

definition encryptDispatch :: "codec \<Rightarrow> string \<Rightarrow> conn \<Rightarrow> Message \<Rightarrow> conn \<times> error option" where
  "encryptDispatch L key conn0 m =
     (let conn = conn0\<lparr>dispatch_calls := Suc (dispatch_calls conn0)\<rparr> in
      case NewWriter L key of
        Inl err \<Rightarrow> (conn, Some err)
      | Inr Flush \<Rightarrow>
          (case gobEncodeMessage L m of
             Inl err \<Rightarrow> (conn, Some err)
           | Inr plain \<Rightarrow>
               (case Flush plain of
                  Inl err \<Rightarrow> (conn, Some err)
                | Inr encMsg \<Rightarrow>
                    (case gobEncodeBytes L encMsg of
                       Inl err \<Rightarrow> (conn, Some err)
                     | Inr frame \<Rightarrow> conn_Write conn frame))))"

text \<open>\<^verbatim>\<open>(receive) -> [de-GOB] -> [DECRYPT] -> [de-GOB] -> msg\<close>\<close>

definition receiveDecrypt :: "codec \<Rightarrow> string \<Rightarrow> conn \<Rightarrow> Message \<times> error option" where
  "receiveDecrypt L key conn =
     (case gobDecodeBytes L (incoming conn) of
        Inl err \<Rightarrow> (Message0, Some err)
      | Inr encMsg \<Rightarrow>
          (case NewReader L key encMsg of
             Inl err \<Rightarrow> (Message0, Some err)
           | Inr plain \<Rightarrow>
               (case gobDecodeMessage L plain of
                  Inl err \<Rightarrow> (Message0, Some err)
                | Inr msg \<Rightarrow> (msg, None))))"

text \<open>The other end of a connection: it receives what this end has written.\<close>

definition peer :: "conn \<Rightarrow> conn" where
  "peer c = \<lparr>incoming = outgoing c, outgoing = [], write_error = None, closed = False,
             dispatch_calls = 0\<rparr>"

subsection \<open>\<^verbatim>\<open>handleConn\<close>\<close>

text \<open>
  What the handler uses besides the connection: the codec and the key, the timestamp
  parser of \<open>AddFromBuffer\<close>, the text of an error (\<^verbatim>\<open>err.Error()\<close>), and the three
  queries \<^verbatim>\<open>db.TopK\<close>, \<^verbatim>\<open>db.LastK\<close> and \<^verbatim>\<open>db.RunQuery\<close>, which take a
  \<^verbatim>\<open>conf.QueryParams\<close> and return \<^verbatim>\<open>([]byte, error)\<close>; their source in this version of the
  database package is not among the sources, so they are parameters.
\<close>

record 't server =
  lib :: codec
  Key :: string
  parse_time :: "string \<Rightarrow> 't option"
  Error_text :: "error \<Rightarrow> string"
  TopK :: "'t history \<Rightarrow> QueryParams \<Rightarrow> string \<times> error option"
  LastK :: "'t history \<Rightarrow> QueryParams \<Rightarrow> string \<times> error option"
  RunQuery :: "'t history \<Rightarrow> QueryParams \<Rightarrow> string \<times> error option"

text \<open>
  The handler returns with the connection closed (the deferred \<^verbatim>\<open>conn.Close()\<close>) and the
  history table it leaves, or the process exits in \<^verbatim>\<open>log.Fatalln\<close>. What it writes to the
  log is not part of the model.
\<close>

datatype 't handled = Returned conn "'t history" | Fatalln error

text \<open>
  The end of the handler: \<^verbatim>\<open>reply := Message{Type: RESULT, Payload: result}\<close>, sent with
  \<open>encryptDispatch\<close>, whose error is only logged.
\<close>

definition send_reply :: "'t server \<Rightarrow> conn \<Rightarrow> 't history \<Rightarrow> string \<Rightarrow> 't handled" where
  "send_reply S conn db result =
     (let reply = \<lparr>Type = RESULT, Payload = result, User = [], Hostname = [],
                    QParams = QueryParams0\<rparr>
      in case encryptDispatch (lib S) (Key S) conn reply of
           (conn', err) \<Rightarrow> Returned (conn'\<lparr>closed := True\<rparr>) db)"

text \<open>
  \<^verbatim>\<open>var result []byte\<close> is declared before the \<^verbatim>\<open>switch\<close>. In the \<^verbatim>\<open>STATS\<close> case the
  statement \<^verbatim>\<open>result := res1\<close> declares a new variable of the case's own block (\<open>result'\<close>
  below), to which the two \<^verbatim>\<open>append\<close>s apply; the reply after the \<^verbatim>\<open>switch\<close> is built from
  the outer \<open>result\<close>.
\<close>

definition handleConn :: "'t server \<Rightarrow> 't history \<Rightarrow> conn \<Rightarrow> 't handled" where
  "handleConn S db conn =
     (case receiveDecrypt (lib S) (Key S) conn of
        (msg, Some err) \<Rightarrow> Returned (conn\<lparr>closed := True\<rparr>) db
      | (msg, None) \<Rightarrow>
          (let result = [] in
           if Type msg = HISTORY then
             (case AddFromBuffer (parse_time S) db (Payload msg) (User msg) (Hostname msg) of
                (db', res, Some err) \<Rightarrow> send_reply S conn db' (Error_text S err)
              | (db', res, None) \<Rightarrow> send_reply S conn db' res)
           else if Type msg = STATS then
             (case TopK S db \<lparr>QUser = ''%'', QHost = ''%'', QCommand = ''%'', Kappa = 20,
                                Format = []\<rparr> of
                (res1, Some err) \<Rightarrow> Fatalln err
              | (res1, None) \<Rightarrow>
                  (case LastK S db \<lparr>QUser = ''%'', QHost = ''%'', QCommand = ''%'', Kappa = 10,
                                      Format = []\<rparr> of
                     (res2, Some err) \<Rightarrow> Fatalln err
                   | (res2, None) \<Rightarrow>
                       (let result' = res1;
                            result' = result' @ [NL, NL];
                            result' = result' @ res2
                        in send_reply S conn db result)))
           else if Type msg = QUERY then
             (case RunQuery S db (QParams msg) of
                (res, Some err) \<Rightarrow> Fatalln err
              | (res, None) \<Rightarrow> send_reply S conn db res)
           else send_reply S conn db result))"

subsection \<open>\<^verbatim>\<open>ClientMode\<close>\<close>

text \<open>
  \<^verbatim>\<open>conf.Operation\<close> and the other settings of the package \<^verbatim>\<open>configuration\<close> that
  \<^verbatim>\<open>ClientMode\<close> reads. \<open>OP_OTHER\<close> stands for every value that is none of the three
  operations.
\<close>

datatype operation = OP_IMPORT | OP_STATS | OP_QUERY | OP_OTHER

record conf =
  Operation :: operation
  conf_User :: string
  conf_Hostname :: string
  conf_QParams :: QueryParams
  conf_Key :: string

text \<open>
  The request and the reply of the operations \<^verbatim>\<open>OP_STATS\<close> and \<^verbatim>\<open>OP_QUERY\<close> (the code after
  the first \<^verbatim>\<open>switch\<close>). The result is the error returned and the lines printed on the
  standard output.
\<close>

definition request_reply :: "codec \<Rightarrow> conf \<Rightarrow> conn \<Rightarrow> Message \<Rightarrow> error option \<times> string list" where
  "request_reply L C conn msg =
     (case encryptDispatch L (conf_Key C) conn msg of
        (conn', Some err) \<Rightarrow> (Some err, [])
      | (conn', None) \<Rightarrow>
          (case receiveDecrypt L (conf_Key C) conn' of
             (reply, Some err) \<Rightarrow> (Some err, [])
           | (reply, None) \<Rightarrow>
               (if Type reply = RESULT then (None, [Payload reply]) else (None, []))))"

text \<open>
  \<open>dial\<close> is the result of \<^verbatim>\<open>net.Dial("tcp", conf.Address)\<close> and \<open>stdin\<close> the result of
  \<^verbatim>\<open>ioutil.ReadAll\<close> on the standard input. In the import the reply's payload is logged,
  not printed; the log and the deferred \<^verbatim>\<open>conn.Close()\<close> are not part of the result.
\<close>

definition ClientMode ::
  "codec \<Rightarrow> conf \<Rightarrow> error + conn \<Rightarrow> error + string \<Rightarrow> error option \<times> string list" where
  "ClientMode L C dial stdin =
     (case dial of
        Inl err \<Rightarrow> (Some err, [])
      | Inr conn \<Rightarrow>
          (case Operation C of
             OP_IMPORT \<Rightarrow>
               (case stdin of
                  Inl err \<Rightarrow> (Some err, [])
                | Inr history \<Rightarrow>
                    (let msg = \<lparr>Type = HISTORY, Payload = history, User = conf_User C,
                                Hostname = conf_Hostname C, QParams = QueryParams0\<rparr>
                     in case encryptDispatch L (conf_Key C) conn msg of
                          (conn', Some err) \<Rightarrow> (Some err, [])
                        | (conn', None) \<Rightarrow>
                            (case receiveDecrypt L (conf_Key C) conn' of
                               (reply, Some err) \<Rightarrow> (Some err, [])
                             | (reply, None) \<Rightarrow> (None, []))))
           | OP_STATS \<Rightarrow>
               request_reply L C conn
                 \<lparr>Type = STATS, Payload = [], User = conf_User C, Hostname = conf_Hostname C,
                  QParams = QueryParams0\<rparr>
           | OP_QUERY \<Rightarrow>
               request_reply L C conn
                 \<lparr>Type = QUERY, Payload = [], User = conf_User C, Hostname = conf_Hostname C,
                  QParams = conf_QParams C\<rparr>
           | OP_OTHER \<Rightarrow> (Some (ErrorString ''unknown function''), [])))"

subsection \<open>A codec for the examples\<close>

text \<open>
  An instance of the libraries' parameters, used where a concrete codec is needed. A
  string is written as its length in unary (dots), a bar, and its bytes; an integer as
  its sign and a string of that many bytes; a message as its fields in order. The cipher
  writes the key before the reversed plaintext and decrypts only under the same key.
\<close>

definition put_string :: "string \<Rightarrow> string" where
  "put_string s = replicate (length s) (CHR ''.'') @ CHR ''|'' # s"

definition get_string :: "string \<Rightarrow> (string \<times> string) option" where
  "get_string b =
     (let n = length (takeWhile (\<lambda>c. c = CHR ''.'') b); r = drop n b in
      case r of
        [] \<Rightarrow> None
      | c # body \<Rightarrow>
          if c = CHR ''|'' \<and> n \<le> length body then Some (take n body, drop n body) else None)"

definition put_int :: "int \<Rightarrow> string" where
  "put_int i = (if i < 0 then CHR ''-'' else CHR ''+'') # put_string (replicate (nat \<bar>i\<bar>) (CHR ''x''))"

definition get_int :: "string \<Rightarrow> (int \<times> string) option" where
  "get_int b =
     (case b of
        [] \<Rightarrow> None
      | sg # r \<Rightarrow>
          (case get_string r of
             None \<Rightarrow> None
           | Some (s, rest) \<Rightarrow>
               if sg = CHR ''-'' then Some (- int (length s), rest)
               else if sg = CHR ''+'' then Some (int (length s), rest)
               else None))"

definition put_Message :: "Message \<Rightarrow> string" where
  "put_Message m =
     put_string (Type m) @ put_string (Payload m) @ put_string (User m) @ put_string (Hostname m) @
     put_string (QUser (QParams m)) @ put_string (QHost (QParams m)) @
     put_string (QCommand (QParams m)) @ put_int (Kappa (QParams m)) @
     put_string (Format (QParams m))"

definition get_Message :: "string \<Rightarrow> Message option" where
  "get_Message b0 =
     (case get_string b0 of None \<Rightarrow> None | Some (ty, b1) \<Rightarrow>
      case get_string b1 of None \<Rightarrow> None | Some (pl, b2) \<Rightarrow>
      case get_string b2 of None \<Rightarrow> None | Some (us, b3) \<Rightarrow>
      case get_string b3 of None \<Rightarrow> None | Some (ho, b4) \<Rightarrow>
      case get_string b4 of None \<Rightarrow> None | Some (qu, b5) \<Rightarrow>
      case get_string b5 of None \<Rightarrow> None | Some (qh, b6) \<Rightarrow>
      case get_string b6 of None \<Rightarrow> None | Some (qc, b7) \<Rightarrow>
      case get_int b7 of None \<Rightarrow> None | Some (ka, b8) \<Rightarrow>
      case get_string b8 of None \<Rightarrow> None | Some (fo, b9) \<Rightarrow>
        if b9 = [] then
          Some \<lparr>Type = ty, Payload = pl, User = us, Hostname = ho,
                QParams = \<lparr>QUser = qu, QHost = qh, QCommand = qc, Kappa = ka, Format = fo\<rparr>\<rparr>
        else None)"

definition demo_codec :: codec where
  "demo_codec =
     \<lparr>gobEncodeMessage = (\<lambda>m. Inr (put_Message m)),
      gobDecodeMessage =
        (\<lambda>b. case get_Message b of None \<Rightarrow> Inl (LibError ''gob'') | Some m \<Rightarrow> Inr m),
      gobEncodeBytes = (\<lambda>b. Inr (put_string b)),
      gobDecodeBytes =
        (\<lambda>f. case get_string f of
                None \<Rightarrow> Inl (LibError ''gob'')
              | Some (b, rest) \<Rightarrow> if rest = [] then Inr b else Inl (LibError ''gob'')),
      NewWriter =
        (\<lambda>key. if key = [] then Inl (LibError ''key'')
               else Inr (\<lambda>plain. Inr (put_string key @ rev plain))),
      NewReader =
        (\<lambda>key c. case get_string c of
                    None \<Rightarrow> Inl (LibError ''decrypt'')
                  | Some (k, body) \<Rightarrow> if k = key then Inr (rev body) else Inl (LibError ''decrypt''))\<rparr>"

subsection \<open>What the codec expects of the libraries\<close>

text \<open>Decoding what gob encoded gives the value back; so does decrypting under the same key.\<close>

definition gob_inverse :: "codec \<Rightarrow> bool" where
  "gob_inverse L =
     ((\<forall>m p. gobEncodeMessage L m = Inr p \<longrightarrow> gobDecodeMessage L p = Inr m) \<and>
      (\<forall>b f. gobEncodeBytes L b = Inr f \<longrightarrow> gobDecodeBytes L f = Inr b))"

definition decrypt_inverse :: "codec \<Rightarrow> bool" where
  "decrypt_inverse L =
     (\<forall>key Flush plain c. NewWriter L key = Inr Flush \<and> Flush plain = Inr c
        \<longrightarrow> NewReader L key c = Inr plain)"

text \<open>The message \<open>ClientMode\<close> builds for an operation, \<open>history\<close> being the standard input.\<close>

definition request :: "conf \<Rightarrow> string \<Rightarrow> Message" where
  "request C history =
     (case Operation C of
        OP_IMPORT \<Rightarrow> \<lparr>Type = HISTORY, Payload = history, User = conf_User C,
                      Hostname = conf_Hostname C, QParams = QueryParams0\<rparr>
      | OP_QUERY \<Rightarrow> \<lparr>Type = QUERY, Payload = [], User = conf_User C,
                     Hostname = conf_Hostname C, QParams = conf_QParams C\<rparr>
      | _ \<Rightarrow> \<lparr>Type = STATS, Payload = [], User = conf_User C,
                Hostname = conf_Hostname C, QParams = QueryParams0\<rparr>)"

section \<open>The store's schema and its migration\<close>

subsection \<open>Tables, views and statements\<close>

text \<open>
  The relational engine is SQLite, behind \<^verbatim>\<open>database/sql\<close>. The part of it that \<^verbatim>\<open>initDB\<close>,
  \<^verbatim>\<open>LogConn\<close> and \<^verbatim>\<open>migrate\<close> use is modelled here: named tables with columns, a primary
  key and rows, named views that join two tables, and the statements of the three
  functions, each of which changes the store or fails.
\<close>

datatype val = Null | Text string

type_synonym row = "val list"

record table =
  cols :: "string list"
  primary_key :: "string list"
  rows :: "row list"

datatype join = JOIN | LEFT_JOIN

text \<open>
  \<^verbatim>\<open>SELECT sel FROM from_table AS c [LEFT] JOIN join_table AS r ON c.on_left = r.on_right\<close>
\<close>

record view =
  sel :: "string list"
  from_table :: string
  join_kind :: join
  join_table :: string
  on_left :: string
  on_right :: string

record store =
  tables :: "string \<rightharpoonup> table"
  views :: "string \<rightharpoonup> view"

datatype stmt =
    CREATE_TABLE string "string list" "string list"
  | INSERT_SELECT string "string list" string
  | DROP_TABLE string
  | RENAME_TABLE string string
  | CREATE_VIEW string view
  | INSERT_VALUES string row
  | UPDATE_LIKE string string val string string

text \<open>
  \<open>INSERT_SELECT dst cs src\<close> is \<^verbatim>\<open>INSERT INTO dst SELECT cs FROM src\<close>, and
  \<open>UPDATE_LIKE t c v w p\<close> is \<^verbatim>\<open>UPDATE t SET c = v WHERE w LIKE p\<close>.
\<close>

fun index_of :: "'a list \<Rightarrow> 'a \<Rightarrow> nat option" where
  "index_of [] x = None"
| "index_of (y # ys) x = (if x = y then Some 0 else map_option Suc (index_of ys x))"

definition cell :: "row \<Rightarrow> nat \<Rightarrow> val" where
  "cell r i = (if i < length r then r ! i else Null)"

text \<open>SQL equality is not true of a NULL.\<close>

definition sql_eq :: "val \<Rightarrow> val \<Rightarrow> bool" where
  "sql_eq a b = (a \<noteq> Null \<and> b \<noteq> Null \<and> a = b)"

text \<open>\<^verbatim>\<open>LIKE\<close>: \<^verbatim>\<open>%\<close> is any sequence, \<^verbatim>\<open>_\<close> any character, ASCII letters match in either case.\<close>

definition to_lower :: "char \<Rightarrow> char" where
  "to_lower c = (if 65 \<le> (of_char c :: nat) \<and> (of_char c :: nat) \<le> 90
                 then char_of ((of_char c :: nat) + 32) else c)"

fun like_match :: "string \<Rightarrow> string \<Rightarrow> bool" where
  "like_match [] [] = True"
| "like_match [] (c # cs) = False"
| "like_match (p # ps) [] = (p = CHR ''%'' \<and> like_match ps [])"
| "like_match (p # ps) (c # cs) =
     (if p = CHR ''%'' then like_match ps (c # cs) \<or> like_match (p # ps) cs
      else (p = CHR ''_'' \<or> to_lower p = to_lower c) \<and> like_match ps cs)"

fun LIKE :: "val \<Rightarrow> string \<Rightarrow> bool" where
  "LIKE Null p = False"
| "LIKE (Text s) p = like_match p s"

definition name_taken :: "store \<Rightarrow> string \<Rightarrow> bool" where
  "name_taken d n = (tables d n \<noteq> None \<or> views d n \<noteq> None)"

text \<open>
  A row is added to a table unless it has the wrong number of values or a row of the table
  has the same values, none of them NULL, in the primary key's columns.
\<close>

definition same_key :: "table \<Rightarrow> row \<Rightarrow> row \<Rightarrow> bool" where
  "same_key t r r' =
     list_all (\<lambda>c. case index_of (cols t) c of
                      None \<Rightarrow> False
                    | Some i \<Rightarrow> sql_eq (cell r i) (cell r' i)) (primary_key t)"

definition insert_row :: "table \<Rightarrow> row \<Rightarrow> error + table" where
  "insert_row t r =
     (if length r \<noteq> length (cols t) then Inl (SqliteError ErrOtherCode)
      else if primary_key t \<noteq> [] \<and> list_ex (same_key t r) (rows t)
      then Inl (SqliteError ErrConstraintPrimaryKey)
      else Inr (t\<lparr>rows := rows t @ [r]\<rparr>))"

fun insert_rows :: "table \<Rightarrow> row list \<Rightarrow> error + table" where
  "insert_rows t [] = Inr t"
| "insert_rows t (r # rs) =
     (case insert_row t r of Inl e \<Rightarrow> Inl e | Inr t' \<Rightarrow> insert_rows t' rs)"

text \<open>\<^verbatim>\<open>SELECT cs FROM t\<close>\<close>

definition select_cols :: "table \<Rightarrow> string list \<Rightarrow> error + row list" where
  "select_cols t cs =
     (if list_all (\<lambda>c. index_of (cols t) c \<noteq> None) cs
      then Inr (map (\<lambda>r. map (\<lambda>c. case index_of (cols t) c of
                                     Some i \<Rightarrow> cell r i | None \<Rightarrow> Null) cs) (rows t))
      else Inl (SqliteError ErrOtherCode))"

fun exec :: "stmt \<Rightarrow> store \<Rightarrow> error + store" where
  "exec (CREATE_TABLE n cs pk) d =
     (if name_taken d n then Inl (SqliteError ErrOtherCode)
      else Inr (d\<lparr>tables := (tables d)(n \<mapsto> \<lparr>cols = cs, primary_key = pk, rows = []\<rparr>)\<rparr>))"
| "exec (INSERT_SELECT dst cs src) d =
     (case (tables d dst, tables d src) of
        (Some td, Some ts) \<Rightarrow>
          (case select_cols ts cs of
             Inl e \<Rightarrow> Inl e
           | Inr rs \<Rightarrow>
               (case insert_rows td rs of
                  Inl e \<Rightarrow> Inl e
                | Inr td' \<Rightarrow> Inr (d\<lparr>tables := (tables d)(dst \<mapsto> td')\<rparr>)))
      | _ \<Rightarrow> Inl (SqliteError ErrOtherCode))"
| "exec (DROP_TABLE n) d =
     (if tables d n = None then Inl (SqliteError ErrOtherCode)
      else Inr (d\<lparr>tables := (tables d)(n := None)\<rparr>))"
| "exec (RENAME_TABLE n n') d =
     (case tables d n of
        None \<Rightarrow> Inl (SqliteError ErrOtherCode)
      | Some t \<Rightarrow>
          if name_taken d n' then Inl (SqliteError ErrOtherCode)
          else Inr (d\<lparr>tables := ((tables d)(n := None))(n' \<mapsto> t)\<rparr>))"
| "exec (CREATE_VIEW n v) d =
     (if name_taken d n then Inl (SqliteError ErrOtherCode)
      else Inr (d\<lparr>views := (views d)(n \<mapsto> v)\<rparr>))"
| "exec (INSERT_VALUES n r) d =
     (case tables d n of
        None \<Rightarrow> Inl (SqliteError ErrOtherCode)
      | Some t \<Rightarrow>
          (case insert_row t r of
             Inl e \<Rightarrow> Inl e
           | Inr t' \<Rightarrow> Inr (d\<lparr>tables := (tables d)(n \<mapsto> t')\<rparr>)))"
| "exec (UPDATE_LIKE n c v w p) d =
     (case tables d n of
        None \<Rightarrow> Inl (SqliteError ErrOtherCode)
      | Some t \<Rightarrow>
          (case (index_of (cols t) c, index_of (cols t) w) of
             (Some i, Some j) \<Rightarrow>
               Inr (d\<lparr>tables := (tables d)(n \<mapsto>
                      t\<lparr>rows := map (\<lambda>r. if LIKE (cell r j) p then r[i := v] else r) (rows t)\<rparr>)\<rparr>)
           | _ \<Rightarrow> Inl (SqliteError ErrOtherCode)))"

text \<open>
  \<^verbatim>\<open>Exec\<close> of a string of several statements runs them in order and stops at the first
  that fails. The store reached is returned as well: outside a transaction the
  statements already run stay.
\<close>

fun Exec :: "stmt list \<Rightarrow> store \<Rightarrow> error option \<times> store" where
  "Exec [] d = (None, d)"
| "Exec (s # ss) d = (case exec s d of Inl e \<Rightarrow> (Some e, d) | Inr d' \<Rightarrow> Exec ss d')"

text \<open>
  The rows of a view. A row of the first table is joined with every row of the second
  that satisfies the \<^verbatim>\<open>ON\<close> condition; when there is none, a \<^verbatim>\<open>LEFT JOIN\<close> keeps the row
  with NULLs for the second table's columns and a \<^verbatim>\<open>JOIN\<close> drops it. A selected column
  must be a column of exactly one of the two tables.
\<close>

definition column_value :: "table \<Rightarrow> row \<Rightarrow> table \<Rightarrow> row \<Rightarrow> string \<Rightarrow> val" where
  "column_value ta l tb r c =
     (case index_of (cols ta) c of
        Some i \<Rightarrow> cell l i
      | None \<Rightarrow> (case index_of (cols tb) c of Some j \<Rightarrow> cell r j | None \<Rightarrow> Null))"

definition resolves :: "table \<Rightarrow> table \<Rightarrow> string \<Rightarrow> bool" where
  "resolves ta tb c = ((index_of (cols ta) c = None) \<noteq> (index_of (cols tb) c = None))"

definition select_view :: "store \<Rightarrow> string \<Rightarrow> error + row list" where
  "select_view d n =
     (case views d n of
        None \<Rightarrow> Inl (SqliteError ErrOtherCode)
      | Some v \<Rightarrow>
          (case (tables d (from_table v), tables d (join_table v)) of
             (Some ta, Some tb) \<Rightarrow>
               (case (index_of (cols ta) (on_left v), index_of (cols tb) (on_right v)) of
                  (Some i, Some j) \<Rightarrow>
                    if list_all (resolves ta tb) (sel v) then
                      Inr (concat (map (\<lambda>l.
                        case filter (\<lambda>r. sql_eq (cell l i) (cell r j)) (rows tb) of
                          [] \<Rightarrow>
                            (if join_kind v = LEFT_JOIN
                             then [map (column_value ta l tb (replicate (length (cols tb)) Null)) (sel v)]
                             else [])
                        | ms \<Rightarrow> map (\<lambda>r. map (column_value ta l tb r) (sel v)) ms) (rows ta)))
                    else Inl (SqliteError ErrOtherCode)
                | _ \<Rightarrow> Inl (SqliteError ErrOtherCode))
           | _ \<Rightarrow> Inl (SqliteError ErrOtherCode)))"

subsection \<open>\<^verbatim>\<open>initDB\<close>\<close>

definition VERSION :: string where "VERSION = ''2''"

definition initDB_schema :: "stmt list" where
  "initDB_schema =
     [CREATE_TABLE ''history'' [''user'', ''host'', ''command'', ''datetime'']
        [''user'', ''command'', ''datetime''],
      CREATE_TABLE ''admin'' [''key'', ''value''] [''key''],
      CREATE_TABLE ''connlog'' [''datetime'', ''remote''] [''datetime''],
      CREATE_TABLE ''rlookup'' [''ip'', ''reverse''] [''ip''],
      CREATE_VIEW ''connections''
        \<lparr>sel = [''datetime'', ''remote'', ''reverse''], from_table = ''connlog'', join_kind = JOIN,
         join_table = ''rlookup'', on_left = ''remote'', on_right = ''ip''\<rparr>]"

definition initDB :: "store \<Rightarrow> error option \<times> store" where
  "initDB db =
     (case Exec initDB_schema db of
        (Some err, db') \<Rightarrow> (Some err, db')
      | (None, db') \<Rightarrow>
          (case Exec [INSERT_VALUES ''admin'' [Text ''version'', Text VERSION]] db' of
             (Some err, db'') \<Rightarrow> (Some err, db'')
           | (None, db'') \<Rightarrow> (None, db'')))"

text \<open>The new database file that \<^verbatim>\<open>sql.Open\<close> creates.\<close>

definition empty_store :: store where
  "empty_store = \<lparr>tables = Map.empty, views = Map.empty\<rparr>"

text \<open>\<^verbatim>\<open>LogConn\<close>'s statement \<^verbatim>\<open>INSERT INTO connlog VALUES (?, ?)\<close> with the time and the address.\<close>

definition LogConn_insert :: "string \<Rightarrow> string \<Rightarrow> store \<Rightarrow> error option \<times> store" where
  "LogConn_insert t ip d = Exec [INSERT_VALUES ''connlog'' [Text t, Text ip]] d"

subsection \<open>\<^verbatim>\<open>migrate\<close>\<close>

text \<open>
  \<^verbatim>\<open>d.QueryRow(`SELECT value FROM admin WHERE key LIKE "version"`).Scan(&version)\<close>: the
  value of the first row selected; \<^verbatim>\<open>sql.ErrNoRows\<close> when there is none; an error of the
  driver when the value is NULL.
\<close>

definition QueryRow_version :: "store \<Rightarrow> error + string" where
  "QueryRow_version d =
     (case tables d ''admin'' of
        None \<Rightarrow> Inl (SqliteError ErrOtherCode)
      | Some t \<Rightarrow>
          (case (index_of (cols t) ''key'', index_of (cols t) ''value'') of
             (Some k, Some v) \<Rightarrow>
               (case filter (\<lambda>r. LIKE (cell r k) ''version'') (rows t) of
                  [] \<Rightarrow> Inl ErrNoRows
                | r # _ \<Rightarrow> (case cell r v of Text s \<Rightarrow> Inr s | Null \<Rightarrow> Inl DriverError))
           | _ \<Rightarrow> Inl (SqliteError ErrOtherCode)))"

definition migrate_schema :: "stmt list" where
  "migrate_schema =
     [CREATE_TABLE ''connlog_new'' [''datetime'', ''remote''] [''datetime''],
      INSERT_SELECT ''connlog_new'' [''datetime'', ''remote''] ''connlog'',
      DROP_TABLE ''connlog'',
      RENAME_TABLE ''connlog_new'' ''connlog'',
      CREATE_TABLE ''rlookup'' [''ip'', ''reverse''] [''ip''],
      CREATE_VIEW ''connections''
        \<lparr>sel = [''datetime'', ''remote'', ''reverse''], from_table = ''connlog'',
         join_kind = LEFT_JOIN, join_table = ''rlookup'', on_left = ''remote'', on_right = ''ip''\<rparr>]"

definition migrate_version :: "stmt list" where
  "migrate_version = [UPDATE_LIKE ''admin'' ''value'' (Text VERSION) ''key'' ''version'']"

text \<open>
  What \<^verbatim>\<open>d.Begin()\<close> and \<^verbatim>\<open>tx.Commit()\<close> fail with, when they fail. A transaction works on
  its own copy of the store, which \<^verbatim>\<open>Commit\<close> makes the store; \<open>migrate\<close> returns its error
  and the store it leaves.
\<close>

record engine =
  begin_error :: "error option"
  commit_error :: "error option"

definition migrate :: "engine \<Rightarrow> store \<Rightarrow> error option \<times> store" where
  "migrate E d =
     (case QueryRow_version d of
        Inl err \<Rightarrow> (Some err, d)
      | Inr version \<Rightarrow>
          if version = ''1'' then
            (case begin_error E of
               Some err \<Rightarrow> (Some err, d)
             | None \<Rightarrow>
                 (case Exec migrate_schema d of
                    (Some err, tx) \<Rightarrow> (Some err, d)
                  | (None, tx) \<Rightarrow>
                      (case Exec migrate_version tx of
                         (Some err, tx') \<Rightarrow> (Some err, d)
                       | (None, tx') \<Rightarrow>
                           (case commit_error E of
                              Some err \<Rightarrow> (Some err, d)
                            | None \<Rightarrow> (None, tx')))))
          else if version \<noteq> VERSION
          then (Some (ErrorString
                  ''Database version different than code version but couldn't fix it.''), d)
          else (None, d))"

subsection \<open>A store at version 1\<close>

text \<open>
  Modelled from the spec: the schema of version 1, whose \<^verbatim>\<open>initDB\<close> is not among the
  sources. The spec says of it that migration "adds \<^verbatim>\<open>rlookup\<close> and recreates \<^verbatim>\<open>connlog\<close>
  without its prior embedded reverse-lookup column", and that the connection log's
  "primary key is timestamp": the recorded version is 1, \<^verbatim>\<open>connlog\<close> has the columns
  \<^verbatim>\<open>datetime\<close> and \<^verbatim>\<open>remote\<close> among its columns, rows of the table's width and pairwise
  different timestamps, and no table or view is named \<^verbatim>\<open>connlog_new\<close>, \<^verbatim>\<open>rlookup\<close> or
  \<^verbatim>\<open>connections\<close>.
\<close>

definition is_v1_store :: "store \<Rightarrow> bool" where
  "is_v1_store d =
     (QueryRow_version d = Inr ''1'' \<and>
      (case tables d ''connlog'' of
         None \<Rightarrow> False
       | Some t \<Rightarrow>
           (case index_of (cols t) ''datetime'' of
              None \<Rightarrow> False
            | Some i \<Rightarrow>
                index_of (cols t) ''remote'' \<noteq> None \<and>
                list_all (\<lambda>r. length r = length (cols t) \<and> cell r i \<noteq> Null) (rows t) \<and>
                distinct (map (\<lambda>r. cell r i) (rows t)))) \<and>
      views d ''connlog'' = None \<and>
      \<not> name_taken d ''connlog_new'' \<and> \<not> name_taken d ''rlookup'' \<and>
      \<not> name_taken d ''connections'')"

text \<open>The rows of \<^verbatim>\<open>SELECT datetime, remote FROM connlog\<close>.\<close>

definition connlog_rows :: "store \<Rightarrow> row list" where
  "connlog_rows d =
     (case tables d ''connlog'' of
        None \<Rightarrow> []
      | Some t \<Rightarrow> (case select_cols t [''datetime'', ''remote''] of Inl e \<Rightarrow> [] | Inr rs \<Rightarrow> rs))"

subsection \<open>Sample inputs\<close>

text \<open>
  Thirteen lines of \<^verbatim>\<open>history\<close> output, three of which do not match the pattern; and the
  same with lines 4 and 5 carrying the same command at the same second.
\<close>

definition sample_lines :: "string list" where
  "sample_lines =
     [''1 2015-02-10T12:01:02+0200 ls -la'',
      ''2 2015-02-10T12:01:05+0200 cd /tmp'',
      ''# not a history line'',
      ''3* 2015-02-10T12:02:00+0200 make'',
      ''4 2015-02-10T12:02:41+0200 git status'',
      ''5 2015-02-10T12:03:07+0200 git diff'',
      '''',
      ''6 2015-02-10T12:04:10+0200 vi Makefile'',
      ''7 2015-02-10T12:06:32+0200 make'',
      ''8 2015-02-10T12:06:50+0200 ./run'',
      ''9 12:07 tail log'',
      ''10 2015-02-10T12:08:15+0200 git commit'',
      ''11 2015-02-10T12:08:30+0200 git push'']"

definition sample_lines_dup :: "string list" where
  "sample_lines_dup =
     [''1 2015-02-10T12:01:02+0200 ls -la'',
      ''2 2015-02-10T12:01:05+0200 cd /tmp'',
      ''# not a history line'',
      ''3* 2015-02-10T12:02:00+0200 make'',
      ''4 2015-02-10T12:02:41+0200 git status'',
      ''5 2015-02-10T12:02:41+0200 git status'',
      '''',
      ''6 2015-02-10T12:04:10+0200 vi Makefile'',
      ''7 2015-02-10T12:06:32+0200 make'',
      ''8 2015-02-10T12:06:50+0200 ./run'',
      ''9 12:07 tail log'',
      ''10 2015-02-10T12:08:15+0200 git commit'',
      ''11 2015-02-10T12:08:30+0200 git push'']"

text \<open>
  A fresh connection, a server and a client configuration over the example codec, a
  \<^verbatim>\<open>STATS\<close> request, and a connection on which a message of type \<^verbatim>\<open>HISTORY\<close> arrives as
  the reply.
\<close>

definition conn0 :: conn where
  "conn0 = \<lparr>incoming = [], outgoing = [], write_error = None, closed = False, dispatch_calls = 0\<rparr>"

definition server0 :: "gotime server" where
  "server0 =
     \<lparr>lib = demo_codec, Key = ''secret'', parse_time = time_Parse_RFC3339alt,
      Error_text = (\<lambda>e. ''error''),
      TopK = (\<lambda>db q. (''Top-20 commands:'', None)),
      LastK = (\<lambda>db q. (''Last 10 commands:'', None)),
      RunQuery = (\<lambda>db q. ([], None))\<rparr>"

definition conf0 :: conf where
  "conf0 = \<lparr>Operation = OP_STATS, conf_User = ''alice'', conf_Hostname = ''box'',
            conf_QParams = QueryParams0, conf_Key = ''secret''\<rparr>"

definition stats_request :: Message where
  "stats_request = \<lparr>Type = STATS, Payload = [], User = ''alice'', Hostname = ''box'',
                    QParams = QueryParams0\<rparr>"

definition history_reply :: Message where
  "history_reply = \<lparr>Type = HISTORY, Payload = ''x'', User = [], Hostname = [],
                    QParams = QueryParams0\<rparr>"

definition reply_conn :: conn where
  "reply_conn = peer (fst (encryptDispatch demo_codec ''secret'' conn0 history_reply))"

text \<open>
  A store at version 1 with two rows in its connection log, an engine whose \<^verbatim>\<open>Begin\<close> and
  \<^verbatim>\<open>Commit\<close> succeed, the store \<open>initDB\<close> creates with the same two connections logged by
  \<^verbatim>\<open>LogConn\<close>, and the version-1 store after \<open>migrate\<close>.
\<close>

definition v1_store :: store where
  "v1_store =
     \<lparr>tables =
        [''history'' \<mapsto> \<lparr>cols = [''user'', ''host'', ''command'', ''datetime''],
                          primary_key = [''user'', ''command'', ''datetime''], rows = []\<rparr>,
         ''admin'' \<mapsto> \<lparr>cols = [''key'', ''value''], primary_key = [''key''],
                        rows = [[Text ''version'', Text ''1'']]\<rparr>,
         ''connlog'' \<mapsto> \<lparr>cols = [''datetime'', ''remote'', ''reverse''], primary_key = [''datetime''],
                          rows = [[Text ''2015-02-10 12:00:00'', Text ''10.0.0.1'', Text ''gw.example''],
                                  [Text ''2015-02-10 12:05:00'', Text ''10.0.0.2'', Null]]\<rparr>],
      views = Map.empty\<rparr>"

definition engine0 :: engine where
  "engine0 = \<lparr>begin_error = None, commit_error = None\<rparr>"

definition fresh_store :: store where
  "fresh_store =
     snd (LogConn_insert ''2015-02-10 12:05:00'' ''10.0.0.2''
       (snd (LogConn_insert ''2015-02-10 12:00:00'' ''10.0.0.1'' (snd (initDB empty_store)))))"

definition migrated_store :: store where
  "migrated_store = snd (migrate engine0 v1_store)"

section \<open>Properties of the bulk import\<close>

lemma feed_Nil: "feed [] frag = frag" by (simp add: feed_def)
lemma feed_Cons: "feed (l # ls) frag = l @ NL # feed ls frag" by (simp add: feed_def)

lemma ReadString_line:
  "NL \<notin> set l \<Longrightarrow> ReadString (l @ NL # rest) = (l @ [NL], rest, None)"
proof -
  assume a: "NL \<notin> set l"
  have d: "dropWhile (\<lambda>c. c \<noteq> NL) (l @ NL # rest) = NL # rest"
    using a by (induction l) auto
  have t: "takeWhile (\<lambda>c. c \<noteq> NL) (l @ NL # rest) = l"
    using a by (induction l) auto
  show ?thesis unfolding ReadString_def d t by simp
qed

lemma ReadString_eof:
  "NL \<notin> set r \<Longrightarrow> ReadString r = (r, [], Some EOF)"
proof -
  assume "NL \<notin> set r"
  then have d: "dropWhile (\<lambda>c. c \<noteq> NL) r = []" by (induction r) auto
  show ?thesis unfolding ReadString_def d by simp
qed

lemma scan_loop_eof:
  "NL \<notin> set r \<Longrightarrow> scan_loop parse u h tx r total' failed = Break tx (total' + 1) failed"
  by (subst scan_loop.simps) (simp add: ReadString_eof)

lemma scan_loop_line:
  "NL \<notin> set l \<Longrightarrow>
   scan_loop parse u h tx (l @ NL # rest) total' failed =
     (let args = FindStringSubmatch parseLine (l @ [NL]) in
      if length args \<noteq> 3 then scan_loop parse u h tx rest (total' + 1) (failed + 1)
      else
        (case parse (args ! 1) of
           None \<Rightarrow> RollbackReturn (TimeParseError (args ! 1))
         | Some t \<Rightarrow>
             (case insert_Exec tx u h (TrimSuffix (args ! 2) [NL]) t of
                Inr tx' \<Rightarrow> scan_loop parse u h tx' rest (total' + 1) failed
              | Inl (SqliteError code) \<Rightarrow>
                  if code = ErrConstraintPrimaryKey
                  then scan_loop parse u h tx rest (total' + 1) (failed + 1)
                  else RollbackReturn (SqliteError code)
              | Inl e \<Rightarrow> Return e)))"
  by (subst scan_loop.simps) (simp add: ReadString_line)

lemma split_lines:
  "\<exists>ls frag. r = feed ls frag \<and> (\<forall>l \<in> set ls. NL \<notin> set l) \<and> NL \<notin> set frag"
proof (induction r)
  case Nil
  have "[] = feed [] []" by (simp add: feed_Nil)
  then show ?case by (metis empty_iff list.set(1))
next
  case (Cons c r)
  then obtain ls frag where r: "r = feed ls frag" and ls: "\<forall>l \<in> set ls. NL \<notin> set l"
    and frag: "NL \<notin> set frag" by blast
  show ?case
  proof (cases "c = NL")
    case True
    then have "c # r = feed ([] # ls) frag" by (simp add: feed_Cons r)
    moreover have "\<forall>l \<in> set ([] # ls). NL \<notin> set l" using ls by simp
    ultimately show ?thesis using frag by blast
  next
    case False
    show ?thesis
    proof (cases ls)
      case Nil
      then have "c # r = feed [] (c # frag)" by (simp add: feed_Nil r)
      moreover have "NL \<notin> set (c # frag)" using False frag by simp
      ultimately show ?thesis by (metis empty_iff list.set(1))
    next
      case (Cons l ls')
      then have "c # r = feed ((c # l) # ls') frag" by (simp add: feed_Cons r)
      moreover have "\<forall>x \<in> set ((c # l) # ls'). NL \<notin> set x" using ls Cons False by simp
      ultimately show ?thesis using frag by blast
    qed
  qed
qed

lemma count_feed:
  "(\<forall>l \<in> set ls. NL \<notin> set l) \<Longrightarrow> NL \<notin> set frag \<Longrightarrow> count_list (feed ls frag) NL = length ls"
  by (induction ls) (simp_all add: feed_Nil feed_Cons)

lemma scan_loop_total:
  "(\<forall>l \<in> set ls. NL \<notin> set l) \<Longrightarrow> NL \<notin> set frag \<Longrightarrow>
   scan_loop parse u h tx (feed ls frag) total' failed = Break tx' n f \<Longrightarrow>
   n = total' + int (length ls) + 1"
proof (induction ls arbitrary: tx total' failed)
  case Nil
  then show ?case by (simp add: feed_Nil scan_loop_eof)
next
  case (Cons l ls)
  from Cons.prems(1) have l: "NL \<notin> set l" and ls: "\<forall>l \<in> set ls. NL \<notin> set l" by simp_all
  note IH = Cons.IH [OF ls Cons.prems(2)]
  from Cons.prems(3) show ?case
    by (auto simp: feed_Cons scan_loop_line [OF l] Let_def
        split: if_splits option.splits sum.splits error.splits dest: IH)
qed

lemma scan_loop_drop_fragment:
  "(\<forall>l \<in> set ls. NL \<notin> set l) \<Longrightarrow> NL \<notin> set frag \<Longrightarrow>
   scan_loop parse u h tx (feed ls frag) total' failed =
   scan_loop parse u h tx (feed ls []) total' failed"
proof (induction ls arbitrary: tx total' failed)
  case Nil
  then show ?case by (simp add: feed_Nil scan_loop_eof)
next
  case (Cons l ls)
  from Cons.prems(1) have l: "NL \<notin> set l" and ls: "\<forall>l \<in> set ls. NL \<notin> set l" by simp_all
  note IH = Cons.IH [OF ls Cons.prems(2)]
  show ?case
    by (simp add: feed_Cons scan_loop_line [OF l] IH cong: if_cong option.case_cong sum.case_cong error.case_cong)
qed

lemma terminated_feed:
  assumes "body = [] \<or> last body = NL"
  shows "\<exists>ls. body = feed ls [] \<and> (\<forall>l \<in> set ls. NL \<notin> set l)"
proof -
  obtain ls frag where b: "body = feed ls frag" and ls: "\<forall>l \<in> set ls. NL \<notin> set l"
    and frag: "NL \<notin> set frag" using split_lines by blast
  have "frag = []"
  proof (rule ccontr)
    assume ne: "frag \<noteq> []"
    then have "last body = last frag" by (simp add: b feed_def)
    moreover have "last frag \<in> set frag" using ne by simp
    moreover have "body \<noteq> []" using ne by (simp add: b feed_def)
    ultimately show False using assms frag by auto
  qed
  with b ls show ?thesis by blast
qed

text \<open>
  Claim C10. When the input does not end with a newline, what follows the last newline is
  dropped: \<open>AddFromBuffer\<close> returns what it returns on the input without that piece
  (the same table, the same statistics, the same error), and whenever it returns
  statistics the total they report is the number of newlines of the input.
\<close>

theorem AddFromBuffer_trailing_fragment:
  assumes frag: "NL \<notin> set frag" and body: "body = [] \<or> last body = NL"
  shows "AddFromBuffer parse db (body @ frag) u h = AddFromBuffer parse db body u h \<and>
         (\<forall>db' stats. AddFromBuffer parse db (body @ frag) u h = (db', stats, None) \<longrightarrow>
            (\<exists>failed. stats = Sprintf_stats (int (count_list (body @ frag) NL))
                                 (int (count_list (body @ frag) NL) - failed) failed))"
proof -
  obtain ls where b: "body = feed ls []" and ls: "\<forall>l \<in> set ls. NL \<notin> set l"
    using terminated_feed [OF body] by blast
  have bf: "body @ frag = feed ls frag" by (simp add: b feed_def)
  have same: "scan_loop parse u h db (body @ frag) 0 0 = scan_loop parse u h db body 0 0"
    using scan_loop_drop_fragment [OF ls frag, of parse u h db 0 0]
    unfolding bf [symmetric] b [symmetric] .
  have cnt: "count_list (body @ frag) NL = length ls"
    unfolding bf by (rule count_feed [OF ls frag])
  have tot: "\<And>tx n f. scan_loop parse u h db (body @ frag) 0 0 = Break tx n f \<Longrightarrow> n = int (length ls) + 1"
    unfolding bf using scan_loop_total [OF ls frag] by fastforce
  have one: "AddFromBuffer parse db (body @ frag) u h = AddFromBuffer parse db body u h"
    by (simp add: AddFromBuffer_def same)
  have two: "\<forall>db' stats. AddFromBuffer parse db (body @ frag) u h = (db', stats, None) \<longrightarrow>
            (\<exists>failed. stats = Sprintf_stats (int (count_list (body @ frag) NL))
                                 (int (count_list (body @ frag) NL) - failed) failed)"
    unfolding cnt
    by (auto simp: AddFromBuffer_def Let_def split: loop_exit.splits dest!: tot)
  from one two show ?thesis by blast
qed


theorem AddFromBuffer_trailing_fragment_witness:
  "NL \<notin> set ''2 2015-02-10T12:01:03+0200 pwd'' \<and>
   last (''1 2015-02-10T12:01:02+0200 ls'' @ [NL]) = NL \<and>
   AddFromBuffer time_Parse_RFC3339alt []
     ((''1 2015-02-10T12:01:02+0200 ls'' @ [NL]) @ ''2 2015-02-10T12:01:03+0200 pwd'') ''u'' ''h'' =
     ([\<lparr>user = ''u'', host = ''h'', command = ''ls'',
        datetime = \<lparr>year = 2015, month = 2, day = 10, hour = 12, minute = 1, second = 2,
                     zone = 7200\<rparr>\<rparr>],
      ''Processed 1 entries, successful 1, failed 0.'', None)"
proof -
  have f: "NL \<notin> set ''2 2015-02-10T12:01:03+0200 pwd''" by simp
  have b: "''1 2015-02-10T12:01:02+0200 ls'' @ [NL] = [] \<or>
           last (''1 2015-02-10T12:01:02+0200 ls'' @ [NL]) = NL" by simp
  have e: "AddFromBuffer time_Parse_RFC3339alt [] (''1 2015-02-10T12:01:02+0200 ls'' @ [NL]) ''u'' ''h'' =
     ([\<lparr>user = ''u'', host = ''h'', command = ''ls'',
        datetime = \<lparr>year = 2015, month = 2, day = 10, hour = 12, minute = 1, second = 2,
                     zone = 7200\<rparr>\<rparr>],
      ''Processed 1 entries, successful 1, failed 0.'', None)"
    by code_simp
  from AddFromBuffer_trailing_fragment [OF f b, of time_Parse_RFC3339alt "[]" "''u''" "''h''"]
  have "AddFromBuffer time_Parse_RFC3339alt []
     ((''1 2015-02-10T12:01:02+0200 ls'' @ [NL]) @ ''2 2015-02-10T12:01:03+0200 pwd'') ''u'' ''h'' =
     AddFromBuffer time_Parse_RFC3339alt [] (''1 2015-02-10T12:01:02+0200 ls'' @ [NL]) ''u'' ''h''"
    by blast
  with e f show ?thesis by simp
qed

lemma scan_loop_step:
  "NL \<notin> set l \<Longrightarrow>
   scan_loop parse u h tx (l @ NL # rest) total' failed =
     (if \<not> matches l then scan_loop parse u h tx rest (total' + 1) (failed + 1)
      else
        (case parse (stamp_of l) of
           None \<Rightarrow> RollbackReturn (TimeParseError (stamp_of l))
         | Some t \<Rightarrow>
             if key_present tx u (command_of l) t
             then scan_loop parse u h tx rest (total' + 1) (failed + 1)
             else scan_loop parse u h
                    (tx @ [\<lparr>user = u, host = h, command = command_of l, datetime = t\<rparr>])
                    rest (total' + 1) failed))"
  by (simp add: scan_loop_line Let_def matches_def stamp_of_def command_of_def insert_Exec_def
           split: option.splits)

lemma key_present_iff: "key_present tx u c t \<longleftrightarrow> (u, c, t) \<in> pkey ` set tx"
  by (auto simp: key_present_def pkey_def image_iff)

lemma key_present_append:
  "key_present (tx @ [r]) u c t \<longleftrightarrow> key_present tx u c t \<or> pkey r = (u, c, t)"
  by (auto simp: key_present_iff)

text \<open>A line with a timestamp that does not parse ends the loop by rollback.\<close>

lemma scan_loop_bad_stamp:
  "(\<forall>l \<in> set ls. NL \<notin> set l) \<Longrightarrow> l \<in> set ls \<Longrightarrow> matches l \<Longrightarrow> parse (stamp_of l) = None \<Longrightarrow>
   \<exists>ts. scan_loop parse u h tx (feed ls frag) total' failed = RollbackReturn (TimeParseError ts)"
proof (induction ls arbitrary: tx total' failed)
  case Nil
  then show ?case by simp
next
  case (Cons a ls)
  from Cons.prems(1) have a: "NL \<notin> set a" and ls: "\<forall>l \<in> set ls. NL \<notin> set l" by simp_all
  show ?case
  proof (cases "matches a \<and> parse (stamp_of a) = None")
    case True
    then show ?thesis by (simp add: feed_Cons scan_loop_step [OF a])
  next
    case False
    with Cons.prems have "l \<in> set ls" by auto
    note IH = Cons.IH [OF ls this Cons.prems(3,4)]
    from False show ?thesis
      by (auto simp: feed_Cons scan_loop_step [OF a] IH split: option.splits)
  qed
qed

text \<open>First run over well-formed lines.\<close>

lemma scan_loop_well_formed:
  "(\<forall>l \<in> set ls. NL \<notin> set l \<and> well_formed parse l) \<Longrightarrow> NL \<notin> set frag \<Longrightarrow>
   \<exists>tx' f'. scan_loop parse u h tx (feed ls frag) total' failed =
               Break tx' (total' + int (length ls) + 1) f'
      \<and> pkey ` set tx \<subseteq> pkey ` set tx'
      \<and> (\<forall>l \<in> set ls. \<forall>t. parse (stamp_of l) = Some t \<longrightarrow> key_present tx' u (command_of l) t)
      \<and> int (length tx') - int (length tx) = int (length ls) - (f' - failed)
      \<and> failed \<le> f' \<and> f' - failed \<le> int (length ls)"
proof (induction ls arbitrary: tx total' failed)
  case Nil
  then show ?case by (simp add: feed_Nil scan_loop_eof)
next
  case (Cons a ls)
  from Cons.prems(1) have a: "NL \<notin> set a" and wa: "well_formed parse a"
    and ls: "\<forall>l \<in> set ls. NL \<notin> set l \<and> well_formed parse l" by simp_all
  from wa obtain t where m: "matches a" and t: "parse (stamp_of a) = Some t"
    by (auto simp: well_formed_def)
  note IH = Cons.IH [OF ls Cons.prems(2)]
  show ?case
  proof (cases "key_present tx u (command_of a) t")
    case True
    from IH [of tx "total' + 1" "failed + 1"]
    obtain tx' f' where
      r: "scan_loop parse u h tx (feed ls frag) (total' + 1) (failed + 1) =
            Break tx' (total' + 1 + int (length ls) + 1) f'"
      and k: "pkey ` set tx \<subseteq> pkey ` set tx'"
      and p: "\<forall>l \<in> set ls. \<forall>t. parse (stamp_of l) = Some t \<longrightarrow> key_present tx' u (command_of l) t"
      and c: "int (length tx') - int (length tx) = int (length ls) - (f' - (failed + 1))"
      and b: "failed + 1 \<le> f'" "f' - (failed + 1) \<le> int (length ls)" by blast
    have here: "key_present tx' u (command_of a) t"
      using True k by (auto simp: key_present_iff)
    have "scan_loop parse u h tx (feed (a # ls) frag) total' failed =
            Break tx' (total' + int (length (a # ls)) + 1) f'"
      using True m t r by (simp add: feed_Cons scan_loop_step [OF a] add.commute add.left_commute)
    moreover have "\<forall>l \<in> set (a # ls). \<forall>t. parse (stamp_of l) = Some t \<longrightarrow> key_present tx' u (command_of l) t"
      using p here t by auto
    moreover have "int (length tx') - int (length tx) = int (length (a # ls)) - (f' - failed)"
      using c by simp
    moreover have "failed \<le> f'" "f' - failed \<le> int (length (a # ls))" using b by simp_all
    ultimately show ?thesis using k by blast
  next
    case False
    let ?row = "\<lparr>user = u, host = h, command = command_of a, datetime = t\<rparr>"
    from IH [of "tx @ [?row]" "total' + 1" failed]
    obtain tx' f' where
      r: "scan_loop parse u h (tx @ [?row]) (feed ls frag) (total' + 1) failed =
            Break tx' (total' + 1 + int (length ls) + 1) f'"
      and k: "pkey ` set (tx @ [?row]) \<subseteq> pkey ` set tx'"
      and p: "\<forall>l \<in> set ls. \<forall>t. parse (stamp_of l) = Some t \<longrightarrow> key_present tx' u (command_of l) t"
      and c: "int (length tx') - int (length (tx @ [?row])) = int (length ls) - (f' - failed)"
      and b: "failed \<le> f'" "f' - failed \<le> int (length ls)" by blast
    have "pkey ?row = (u, command_of a, t)" by (simp add: pkey_def)
    then have here: "key_present tx' u (command_of a) t"
      using k by (auto simp: key_present_iff)
    have "scan_loop parse u h tx (feed (a # ls) frag) total' failed =
            Break tx' (total' + int (length (a # ls)) + 1) f'"
      using False m t r by (simp add: feed_Cons scan_loop_step [OF a] add.commute add.left_commute)
    moreover have "\<forall>l \<in> set (a # ls). \<forall>t. parse (stamp_of l) = Some t \<longrightarrow> key_present tx' u (command_of l) t"
      using p here t by auto
    moreover have "int (length tx') - int (length tx) = int (length (a # ls)) - (f' - failed)"
      using c by simp
    moreover have "failed \<le> f'" "f' - failed \<le> int (length (a # ls))" using b by simp_all
    moreover have "pkey ` set tx \<subseteq> pkey ` set tx'" using k by auto
    ultimately show ?thesis by blast
  qed
qed

text \<open>A run over lines whose keys are all in the table already.\<close>

lemma scan_loop_all_present:
  "(\<forall>l \<in> set ls. NL \<notin> set l \<and> well_formed parse l \<and>
       (\<forall>t. parse (stamp_of l) = Some t \<longrightarrow> key_present tx u (command_of l) t)) \<Longrightarrow>
   NL \<notin> set frag \<Longrightarrow>
   scan_loop parse u h tx (feed ls frag) total' failed =
     Break tx (total' + int (length ls) + 1) (failed + int (length ls))"
proof (induction ls arbitrary: total' failed)
  case Nil
  then show ?case by (simp add: feed_Nil scan_loop_eof)
next
  case (Cons a ls)
  from Cons.prems(1) have a: "NL \<notin> set a" and wa: "well_formed parse a"
    and ka: "\<forall>t. parse (stamp_of a) = Some t \<longrightarrow> key_present tx u (command_of a) t"
    and ls: "\<forall>l \<in> set ls. NL \<notin> set l \<and> well_formed parse l \<and>
       (\<forall>t. parse (stamp_of l) = Some t \<longrightarrow> key_present tx u (command_of l) t)" by simp_all
  from wa obtain t where m: "matches a" and t: "parse (stamp_of a) = Some t"
    by (auto simp: well_formed_def)
  from ka t have k: "key_present tx u (command_of a) t" by simp
  show ?case
    using m t k by (simp add: feed_Cons scan_loop_step [OF a] Cons.IH [OF ls Cons.prems(2)])
qed

lemma parsed_rows_Cons:
  "parsed_rows parse u h (a # ls) =
     (if matches a
      then (case parse (stamp_of a) of
              Some t \<Rightarrow> [\<lparr>user = u, host = h, command = command_of a, datetime = t\<rparr>]
            | None \<Rightarrow> [])
      else []) @ parsed_rows parse u h ls"
  by (simp add: parsed_rows_def)

lemma parsed_rows_Nil: "parsed_rows parse u h [] = []"
  by (simp add: parsed_rows_def)

text \<open>A run in which no key is met twice: every parsed row is appended.\<close>

lemma scan_loop_fresh:
  "(\<forall>l \<in> set ls. NL \<notin> set l \<and> (matches l \<longrightarrow> parse (stamp_of l) \<noteq> None)) \<Longrightarrow>
   NL \<notin> set frag \<Longrightarrow>
   distinct (map pkey (tx @ parsed_rows parse u h ls)) \<Longrightarrow>
   scan_loop parse u h tx (feed ls frag) total' failed =
     Break (tx @ parsed_rows parse u h ls) (total' + int (length ls) + 1)
       (failed + int (length (filter (\<lambda>l. \<not> matches l) ls)))"
proof (induction ls arbitrary: tx total' failed)
  case Nil
  then show ?case by (simp add: feed_Nil scan_loop_eof parsed_rows_Nil)
next
  case (Cons a ls)
  from Cons.prems(1) have a: "NL \<notin> set a" and pa: "matches a \<longrightarrow> parse (stamp_of a) \<noteq> None"
    and ls: "\<forall>l \<in> set ls. NL \<notin> set l \<and> (matches l \<longrightarrow> parse (stamp_of l) \<noteq> None)"
    by simp_all
  note IH = Cons.IH [OF ls Cons.prems(2)]
  show ?case
  proof (cases "matches a")
    case False
    then have "parsed_rows parse u h (a # ls) = parsed_rows parse u h ls"
      by (simp add: parsed_rows_Cons)
    with Cons.prems(3) False show ?thesis
      by (simp add: feed_Cons scan_loop_step [OF a] IH)
  next
    case True
    with pa obtain t where t: "parse (stamp_of a) = Some t" by auto
    let ?row = "\<lparr>user = u, host = h, command = command_of a, datetime = t\<rparr>"
    have rows: "parsed_rows parse u h (a # ls) = ?row # parsed_rows parse u h ls"
      using True t by (simp add: parsed_rows_Cons)
    have d: "distinct (map pkey ((tx @ [?row]) @ parsed_rows parse u h ls))"
      using Cons.prems(3) by (simp add: rows)
    have "pkey ?row \<notin> pkey ` set tx"
      using Cons.prems(3) by (auto simp: rows)
    then have fresh: "\<not> key_present tx u (command_of a) t"
      by (simp add: key_present_iff pkey_def)
    show ?thesis
      using True t fresh IH [OF d]
      by (simp add: feed_Cons scan_loop_step [OF a] rows add.commute add.left_commute)
  qed
qed

lemma filter_all_length:
  "length (filter P xs) = length xs \<Longrightarrow> \<forall>x \<in> set xs. P x"
  by (metis filter_id_conv length_filter_less less_irrefl not_less_iff_gr_or_eq order.strict_iff_order length_filter_le)

text \<open>
  Claim C4. A line that matches the pattern and whose timestamp does not parse aborts the
  import: the transaction is rolled back, so the table is the one before the call, and
  the error of the parse is returned with no statistics. This holds for a line that ends
  with a newline (the lines \<open>ls\<close>, followed by any rest of input).
\<close>

theorem AddFromBuffer_bad_timestamp_aborts:
  assumes "\<forall>l \<in> set ls. NL \<notin> set l" and "l \<in> set ls"
    and "matches l" and "parse (stamp_of l) = None"
  shows "\<exists>ts. AddFromBuffer parse db (feed ls rest) u h = (db, [], Some (TimeParseError ts))"
proof -
  from scan_loop_bad_stamp [of ls l parse u h db rest 0 0] assms
  obtain ts where "scan_loop parse u h db (feed ls rest) 0 0 = RollbackReturn (TimeParseError ts)"
    by blast
  then show ?thesis by (simp add: AddFromBuffer_def)
qed

theorem AddFromBuffer_bad_timestamp_aborts_witness:
  "NL \<notin> set ''1 2015-02-10T12:01:02+0200 ls'' \<and> NL \<notin> set ''2 2015-13-10T12:01:05+0200 pwd'' \<and>
   matches ''2 2015-13-10T12:01:05+0200 pwd'' \<and>
   time_Parse_RFC3339alt (stamp_of ''2 2015-13-10T12:01:05+0200 pwd'') = None \<and>
   (\<exists>ts. AddFromBuffer time_Parse_RFC3339alt []
           (feed [''1 2015-02-10T12:01:02+0200 ls'', ''2 2015-13-10T12:01:05+0200 pwd'']
              (''3 2015-02-10T12:01:09+0200 id'' @ [NL])) ''u'' ''h'' =
         ([], [], Some (TimeParseError ts)))"
proof -
  have n: "\<forall>l \<in> set [''1 2015-02-10T12:01:02+0200 ls'', ''2 2015-13-10T12:01:05+0200 pwd'']. NL \<notin> set l"
    by simp
  have i: "''2 2015-13-10T12:01:05+0200 pwd'' \<in>
           set [''1 2015-02-10T12:01:02+0200 ls'', ''2 2015-13-10T12:01:05+0200 pwd'']"
    by simp
  have m: "matches ''2 2015-13-10T12:01:05+0200 pwd''" by code_simp
  have p: "time_Parse_RFC3339alt (stamp_of ''2 2015-13-10T12:01:05+0200 pwd'') = None" by code_simp
  from AddFromBuffer_bad_timestamp_aborts
         [of "[''1 2015-02-10T12:01:02+0200 ls'', ''2 2015-13-10T12:01:05+0200 pwd'']"
             "''2 2015-13-10T12:01:05+0200 pwd''" time_Parse_RFC3339alt "[]"
             "''3 2015-02-10T12:01:09+0200 id'' @ [NL]" "''u''" "''h''", OF n i m p]
  have "\<exists>ts. AddFromBuffer time_Parse_RFC3339alt []
           (feed [''1 2015-02-10T12:01:02+0200 ls'', ''2 2015-13-10T12:01:05+0200 pwd'']
              (''3 2015-02-10T12:01:09+0200 id'' @ [NL])) ''u'' ''h'' =
         ([], [], Some (TimeParseError ts))" .
  with m p show ?thesis by simp
qed

text \<open>
  The claim as stated, for any line of the input, fails on a last line with no newline
  after it: the line below matches, its month is 13, and the import commits the line
  before it and returns statistics.
\<close>

theorem AddFromBuffer_unterminated_bad_timestamp:
  "length (FindStringSubmatch parseLine ''2 2015-13-10T12:01:05+0200 pwd'') = 3 \<and>
   time_Parse_RFC3339alt (FindStringSubmatch parseLine ''2 2015-13-10T12:01:05+0200 pwd'' ! 1) = None \<and>
   AddFromBuffer time_Parse_RFC3339alt []
     (''1 2015-02-10T12:01:02+0200 ls'' @ [NL] @ ''2 2015-13-10T12:01:05+0200 pwd'') ''u'' ''h'' =
     ([\<lparr>user = ''u'', host = ''h'', command = ''ls'',
        datetime = \<lparr>year = 2015, month = 2, day = 10, hour = 12, minute = 1, second = 2,
                     zone = 7200\<rparr>\<rparr>],
      ''Processed 1 entries, successful 1, failed 0.'', None)"
  by code_simp

lemma parsed_rows_length:
  "(\<forall>l \<in> set ls. well_formed parse l) \<Longrightarrow> length (parsed_rows parse u h ls) = length ls"
proof (induction ls)
  case Nil
  then show ?case by (simp add: parsed_rows_Nil)
next
  case (Cons a ls)
  then show ?case by (auto simp: parsed_rows_Cons well_formed_def)
qed

text \<open>
  Claim C3. Importing a well-formed text twice for the same user and host, when the keys
  of its lines are pairwise different and none of them is in the table yet: the first run
  inserts one row for every line and reports no failure; the second run adds no row,
  returns no error and reports as failed as many lines as the first run inserted. A row
  whose key is already in the table makes the loop count the line as failed and go on
  with the same transaction.
\<close>

theorem AddFromBuffer_twice:
  assumes ls: "\<forall>l \<in> set ls. NL \<notin> set l \<and> well_formed parse l" and frag: "NL \<notin> set frag"
    and fresh: "distinct (map pkey (db @ parsed_rows parse u h ls))"
  shows "AddFromBuffer parse db (feed ls frag) u h =
           (db @ parsed_rows parse u h ls,
            Sprintf_stats (int (length ls)) (int (length ls)) 0, None)
       \<and> length (parsed_rows parse u h ls) = length ls
       \<and> AddFromBuffer parse (db @ parsed_rows parse u h ls) (feed ls frag) u h =
           (db @ parsed_rows parse u h ls,
            Sprintf_stats (int (length ls)) 0 (int (length ls)), None)
       \<and> (\<forall>tx l t r total' failed.
            NL \<notin> set l \<and> matches l \<and> parse (stamp_of l) = Some t \<and> key_present tx u (command_of l) t
            \<longrightarrow> scan_loop parse u h tx (l @ NL # r) total' failed =
                scan_loop parse u h tx r (total' + 1) (failed + 1))"
proof -
  let ?db1 = "db @ parsed_rows parse u h ls"
  have ok: "\<forall>l \<in> set ls. NL \<notin> set l \<and> (matches l \<longrightarrow> parse (stamp_of l) \<noteq> None)"
    using ls by (auto simp: well_formed_def)
  have nobad: "filter (\<lambda>l. \<not> matches l) ls = []"
    using ls by (auto simp: well_formed_def filter_empty_conv)
  have r1: "scan_loop parse u h db (feed ls frag) 0 0 = Break ?db1 (0 + int (length ls) + 1) 0"
    using scan_loop_fresh [OF ok frag fresh, of 0 0] by (simp add: nobad)
  from scan_loop_well_formed [OF ls frag, of u h db 0 0]
  obtain tx' f' where
    w: "scan_loop parse u h db (feed ls frag) 0 0 = Break tx' (0 + int (length ls) + 1) f'"
    and p: "\<forall>l \<in> set ls. \<forall>t. parse (stamp_of l) = Some t \<longrightarrow> key_present tx' u (command_of l) t"
    by blast
  from r1 w have "tx' = ?db1" by simp
  with p have all: "\<forall>l \<in> set ls. NL \<notin> set l \<and> well_formed parse l \<and>
       (\<forall>t. parse (stamp_of l) = Some t \<longrightarrow> key_present ?db1 u (command_of l) t)"
    using ls by blast
  have r2: "scan_loop parse u h ?db1 (feed ls frag) 0 0 =
              Break ?db1 (0 + int (length ls) + 1) (0 + int (length ls))"
    by (rule scan_loop_all_present [OF all frag])
  have a1: "AddFromBuffer parse db (feed ls frag) u h =
              (?db1, Sprintf_stats (int (length ls)) (int (length ls)) 0, None)"
    by (simp add: AddFromBuffer_def r1 Let_def)
  have a2: "AddFromBuffer parse ?db1 (feed ls frag) u h =
              (?db1, Sprintf_stats (int (length ls)) 0 (int (length ls)), None)"
    by (simp add: AddFromBuffer_def r2 Let_def)
  have a3: "length (parsed_rows parse u h ls) = length ls"
    by (rule parsed_rows_length) (use ls in blast)
  have second: "\<forall>tx l t r total' failed.
            NL \<notin> set l \<and> matches l \<and> parse (stamp_of l) = Some t \<and> key_present tx u (command_of l) t
            \<longrightarrow> scan_loop parse u h tx (l @ NL # r) total' failed =
                scan_loop parse u h tx r (total' + 1) (failed + 1)"
    by (simp add: scan_loop_step)
  from a1 a2 a3 second show ?thesis by blast
qed

theorem AddFromBuffer_twice_witness:
  "NL \<notin> set ''1 2015-02-10T12:01:02+0200 ls'' \<and>
   well_formed time_Parse_RFC3339alt ''1 2015-02-10T12:01:02+0200 ls'' \<and>
   NL \<notin> set ''2 2015-02-10T12:01:05+0200 pwd'' \<and>
   well_formed time_Parse_RFC3339alt ''2 2015-02-10T12:01:05+0200 pwd'' \<and>
   distinct (map pkey ([] @ parsed_rows time_Parse_RFC3339alt ''u'' ''h''
      [''1 2015-02-10T12:01:02+0200 ls'', ''2 2015-02-10T12:01:05+0200 pwd''])) \<and>
   AddFromBuffer time_Parse_RFC3339alt []
       (feed [''1 2015-02-10T12:01:02+0200 ls'', ''2 2015-02-10T12:01:05+0200 pwd''] []) ''u'' ''h'' =
     (parsed_rows time_Parse_RFC3339alt ''u'' ''h''
        [''1 2015-02-10T12:01:02+0200 ls'', ''2 2015-02-10T12:01:05+0200 pwd''],
      Sprintf_stats 2 2 0, None) \<and>
   length (parsed_rows time_Parse_RFC3339alt ''u'' ''h''
        [''1 2015-02-10T12:01:02+0200 ls'', ''2 2015-02-10T12:01:05+0200 pwd'']) = 2 \<and>
   AddFromBuffer time_Parse_RFC3339alt
       (parsed_rows time_Parse_RFC3339alt ''u'' ''h''
          [''1 2015-02-10T12:01:02+0200 ls'', ''2 2015-02-10T12:01:05+0200 pwd''])
       (feed [''1 2015-02-10T12:01:02+0200 ls'', ''2 2015-02-10T12:01:05+0200 pwd''] []) ''u'' ''h'' =
     (parsed_rows time_Parse_RFC3339alt ''u'' ''h''
        [''1 2015-02-10T12:01:02+0200 ls'', ''2 2015-02-10T12:01:05+0200 pwd''],
      Sprintf_stats 2 0 2, None)"
proof -
  have w1: "well_formed time_Parse_RFC3339alt ''1 2015-02-10T12:01:02+0200 ls''" by code_simp
  have w2: "well_formed time_Parse_RFC3339alt ''2 2015-02-10T12:01:05+0200 pwd''" by code_simp
  have ls: "\<forall>l \<in> set [''1 2015-02-10T12:01:02+0200 ls'', ''2 2015-02-10T12:01:05+0200 pwd''].
              NL \<notin> set l \<and> well_formed time_Parse_RFC3339alt l"
    using w1 w2 by simp
  have frag: "NL \<notin> set []" by simp
  have d: "distinct (map pkey ([] @ parsed_rows time_Parse_RFC3339alt ''u'' ''h''
      [''1 2015-02-10T12:01:02+0200 ls'', ''2 2015-02-10T12:01:05+0200 pwd'']))"
    by code_simp
  from AddFromBuffer_twice [OF ls frag d] w1 w2 d
  show ?thesis by simp
qed

text \<open>
  The second run's failed count is not the number of rows the first run inserted when a
  key occurs twice in the text: of the two well-formed lines below the first run inserts
  one, and the second run reports two failures.
\<close>

theorem AddFromBuffer_twice_repeated_key:
  "well_formed time_Parse_RFC3339alt ''1 2015-02-10T12:01:02+0200 ls'' \<and>
   well_formed time_Parse_RFC3339alt ''2 2015-02-10T12:01:02+0200 ls'' \<and>
   AddFromBuffer time_Parse_RFC3339alt []
     (feed [''1 2015-02-10T12:01:02+0200 ls'', ''2 2015-02-10T12:01:02+0200 ls''] []) ''u'' ''h'' =
     ([\<lparr>user = ''u'', host = ''h'', command = ''ls'',
        datetime = \<lparr>year = 2015, month = 2, day = 10, hour = 12, minute = 1, second = 2,
                     zone = 7200\<rparr>\<rparr>],
      ''Processed 2 entries, successful 1, failed 1.'', None) \<and>
   AddFromBuffer time_Parse_RFC3339alt
     [\<lparr>user = ''u'', host = ''h'', command = ''ls'',
        datetime = \<lparr>year = 2015, month = 2, day = 10, hour = 12, minute = 1, second = 2,
                     zone = 7200\<rparr>\<rparr>]
     (feed [''1 2015-02-10T12:01:02+0200 ls'', ''2 2015-02-10T12:01:02+0200 ls''] []) ''u'' ''h'' =
     ([\<lparr>user = ''u'', host = ''h'', command = ''ls'',
        datetime = \<lparr>year = 2015, month = 2, day = 10, hour = 12, minute = 1, second = 2,
                     zone = 7200\<rparr>\<rparr>],
      ''Processed 2 entries, successful 0, failed 2.'', None)"
  by code_simp

text \<open>
  Claim C5. Thirteen lines, each ending with a newline, ten of them well-formed with
  pairwise different keys and three not matching the pattern, imported into an empty
  table: the import commits the ten rows and reports 13 processed, 10 successful and
  3 failed, with no error.
\<close>

theorem AddFromBuffer_ten_good_three_bad:
  assumes nl: "\<forall>l \<in> set ls. NL \<notin> set l"
    and n: "length ls = 13"
    and good: "length (filter (well_formed parse) ls) = 10"
    and bad: "length (filter (\<lambda>l. \<not> matches l) ls) = 3"
    and keys: "distinct (map pkey (parsed_rows parse u h ls))"
  shows "AddFromBuffer parse [] (feed ls []) u h =
           (parsed_rows parse u h ls, ''Processed 13 entries, successful 10, failed 3.'', None)
         \<and> length (parsed_rows parse u h ls) = 10"
proof -
  have sum: "length (filter matches ls) + length (filter (\<lambda>l. \<not> matches l) ls) = length ls"
    by (rule sum_length_filter_compl)
  then have lm: "length (filter matches ls) = 10" using n bad by simp
  have "filter (well_formed parse) (filter matches ls) = filter (well_formed parse) ls"
    by (auto simp: well_formed_def intro: filter_cong)
  then have "length (filter (well_formed parse) (filter matches ls)) = length (filter matches ls)"
    using good lm by simp
  then have "\<forall>l \<in> set (filter matches ls). well_formed parse l"
    by (rule filter_all_length)
  then have ok: "\<forall>l \<in> set ls. NL \<notin> set l \<and> (matches l \<longrightarrow> parse (stamp_of l) \<noteq> None)"
    using nl by (auto simp: well_formed_def)
  have d: "distinct (map pkey ([] @ parsed_rows parse u h ls))" using keys by simp
  have r: "scan_loop parse u h [] (feed ls []) 0 0 =
             Break ([] @ parsed_rows parse u h ls) (0 + int (length ls) + 1)
               (0 + int (length (filter (\<lambda>l. \<not> matches l) ls)))"
    by (rule scan_loop_fresh [OF ok _ d]) simp
  have len: "length (parsed_rows parse u h ls) = length (filter matches ls)"
    using ok
  proof (induction ls)
    case Nil
    then show ?case by (simp add: parsed_rows_Nil)
  next
    case (Cons a ls)
    then show ?case by (auto simp: parsed_rows_Cons split: option.splits)
  qed
  have s: "Sprintf_stats 13 10 3 = ''Processed 13 entries, successful 10, failed 3.''"
    by code_simp
  have "AddFromBuffer parse [] (feed ls []) u h = (parsed_rows parse u h ls, Sprintf_stats 13 10 3, None)"
    by (simp add: AddFromBuffer_def r n bad Let_def)
  with s len lm show ?thesis by simp
qed

theorem AddFromBuffer_ten_good_three_bad_witness:
  "length sample_lines = 13 \<and>
   length (filter (well_formed time_Parse_RFC3339alt) sample_lines) = 10 \<and>
   length (filter (\<lambda>l. \<not> matches l) sample_lines) = 3 \<and>
   distinct (map pkey (parsed_rows time_Parse_RFC3339alt ''u'' ''h'' sample_lines)) \<and>
   AddFromBuffer time_Parse_RFC3339alt [] (feed sample_lines []) ''u'' ''h'' =
     (parsed_rows time_Parse_RFC3339alt ''u'' ''h'' sample_lines,
      ''Processed 13 entries, successful 10, failed 3.'', None) \<and>
   length (parsed_rows time_Parse_RFC3339alt ''u'' ''h'' sample_lines) = 10"
proof -
  have nl: "\<forall>l \<in> set sample_lines. NL \<notin> set l" by (simp add: sample_lines_def)
  have n: "length sample_lines = 13" by (simp add: sample_lines_def)
  have good: "length (filter (well_formed time_Parse_RFC3339alt) sample_lines) = 10" by code_simp
  have bad: "length (filter (\<lambda>l. \<not> matches l) sample_lines) = 3" by code_simp
  have keys: "distinct (map pkey (parsed_rows time_Parse_RFC3339alt ''u'' ''h'' sample_lines))"
    by code_simp
  from AddFromBuffer_ten_good_three_bad [OF nl n good bad keys] n good bad keys
  show ?thesis by simp
qed

text \<open>
  With the same command at the same second on two of the ten well-formed lines, the
  second of them is a duplicate: 9 successful and 4 failed.
\<close>

theorem AddFromBuffer_ten_good_repeated_key:
  "length (filter (well_formed time_Parse_RFC3339alt) sample_lines_dup) = 10 \<and>
   length (filter (\<lambda>l. \<not> matches l) sample_lines_dup) = 3 \<and>
   distinct sample_lines_dup \<and>
   snd (AddFromBuffer time_Parse_RFC3339alt [] (feed sample_lines_dup []) ''u'' ''h'') =
     (''Processed 13 entries, successful 9, failed 4.'', None)"
proof -
  have a: "length (filter (well_formed time_Parse_RFC3339alt) sample_lines_dup) = 10" by code_simp
  have b: "length (filter (\<lambda>l. \<not> matches l) sample_lines_dup) = 3" by code_simp
  have c: "distinct sample_lines_dup" by code_simp
  have d: "snd (AddFromBuffer time_Parse_RFC3339alt [] (feed sample_lines_dup []) ''u'' ''h'') =
     (''Processed 13 entries, successful 9, failed 4.'', None)" by code_simp
  from a b c d show ?thesis by blast
qed

section \<open>Properties of the network package\<close>

subsection \<open>The example codec meets the libraries' contracts\<close>

lemma takeWhile_dots:
  "takeWhile (\<lambda>c. c = CHR ''.'') (replicate n (CHR ''.'') @ CHR ''|'' # xs) = replicate n (CHR ''.'')"
  by (induction n) simp_all

lemma get_put_string: "get_string (put_string s @ rest) = Some (s, rest)"
proof -
  have t: "takeWhile (\<lambda>c. c = CHR ''.'') (replicate (length s) (CHR ''.'') @ CHR ''|'' # s @ rest)
           = replicate (length s) (CHR ''.'')"
    by (rule takeWhile_dots)
  show ?thesis
    unfolding get_string_def put_string_def by (simp add: t Let_def)
qed

lemma get_put_int: "get_int (put_int i @ rest) = Some (i, rest)"
  by (simp add: get_int_def put_int_def get_put_string)

lemma get_put_Message: "get_Message (put_Message m) = Some m"
proof -
  have "get_Message (put_string a @ put_string b @ put_string c @ put_string d @ put_string e @
          put_string f @ put_string g @ put_int k @ put_string h) =
        Some \<lparr>Type = a, Payload = b, User = c, Hostname = d,
              QParams = \<lparr>QUser = e, QHost = f, QCommand = g, Kappa = k, Format = h\<rparr>\<rparr>"
    for a b c d e f g k h
    using get_put_string [of h "[]"]
    by (simp add: get_Message_def get_put_string get_put_int)
  then show ?thesis by (simp add: put_Message_def)
qed

lemma demo_gob_inverse: "gob_inverse demo_codec"
  using get_put_string [of _ "[]"]
  by (auto simp: gob_inverse_def demo_codec_def get_put_Message)

lemma demo_decrypt_inverse: "decrypt_inverse demo_codec"
  by (auto simp: decrypt_inverse_def demo_codec_def get_put_string split: if_splits)

subsection \<open>Envelope codec\<close>

text \<open>
  Claim C1. Round trip: when gob and the cipher invert their own encodings and
  \<open>encryptDispatch\<close> has sent the message \<open>m\<close> under the key on a fresh connection,
  \<open>receiveDecrypt\<close> under the same key at the other end returns \<open>m\<close> and no error.
\<close>

theorem receiveDecrypt_encryptDispatch:
  assumes gob: "gob_inverse L" and dec: "decrypt_inverse L"
    and fresh: "outgoing conn = []"
    and sent: "encryptDispatch L key conn m = (conn', None)"
  shows "receiveDecrypt L key (peer conn') = (m, None)"
proof -
  from sent obtain Flush plain encMsg frame where
    w: "NewWriter L key = Inr Flush" and p: "gobEncodeMessage L m = Inr plain"
    and c: "Flush plain = Inr encMsg" and f: "gobEncodeBytes L encMsg = Inr frame"
    and wr: "conn_Write (conn\<lparr>dispatch_calls := Suc (dispatch_calls conn)\<rparr>) frame = (conn', None)"
    by (auto simp: encryptDispatch_def Let_def split: sum.splits)
  from wr fresh have out: "outgoing conn' = frame"
    by (auto simp: conn_Write_def split: option.splits)
  from gob f have 1: "gobDecodeBytes L frame = Inr encMsg" by (simp add: gob_inverse_def)
  from dec w c have 2: "NewReader L key encMsg = Inr plain" unfolding decrypt_inverse_def by blast
  from gob p have 3: "gobDecodeMessage L plain = Inr m" by (simp add: gob_inverse_def)
  show ?thesis by (simp add: receiveDecrypt_def peer_def out 1 2 3)
qed

theorem receiveDecrypt_encryptDispatch_witness:
  "gob_inverse demo_codec \<and> decrypt_inverse demo_codec \<and> outgoing conn0 = [] \<and>
   snd (encryptDispatch demo_codec ''secret'' conn0
          \<lparr>Type = HISTORY, Payload = ''1 2015-02-10T12:01:02+0200 ls'' @ [NL], User = ''alice'',
           Hostname = ''box'', QParams = QueryParams0\<rparr>) = None \<and>
   receiveDecrypt demo_codec ''secret''
     (peer (fst (encryptDispatch demo_codec ''secret'' conn0
          \<lparr>Type = HISTORY, Payload = ''1 2015-02-10T12:01:02+0200 ls'' @ [NL], User = ''alice'',
           Hostname = ''box'', QParams = QueryParams0\<rparr>))) =
     (\<lparr>Type = HISTORY, Payload = ''1 2015-02-10T12:01:02+0200 ls'' @ [NL], User = ''alice'',
           Hostname = ''box'', QParams = QueryParams0\<rparr>, None)"
proof -
  let ?m = "\<lparr>Type = HISTORY, Payload = ''1 2015-02-10T12:01:02+0200 ls'' @ [NL], User = ''alice'',
           Hostname = ''box'', QParams = QueryParams0\<rparr>"
  have f: "outgoing conn0 = []" by (simp add: conn0_def)
  have s: "snd (encryptDispatch demo_codec ''secret'' conn0 ?m) = None"
    by (simp add: encryptDispatch_def demo_codec_def conn_Write_def conn0_def)
  then have e: "encryptDispatch demo_codec ''secret'' conn0 ?m =
             (fst (encryptDispatch demo_codec ''secret'' conn0 ?m), None)"
    by (simp add: prod_eq_iff)
  from receiveDecrypt_encryptDispatch [OF demo_gob_inverse demo_decrypt_inverse f e]
    demo_gob_inverse demo_decrypt_inverse f s
  show ?thesis by simp
qed

subsection \<open>Connection handler\<close>

text \<open>Every call of \<open>encryptDispatch\<close> is counted on the connection.\<close>

lemma encryptDispatch_counts:
  "dispatch_calls (fst (encryptDispatch L key conn m)) = Suc (dispatch_calls conn)"
  by (simp add: encryptDispatch_def conn_Write_def Let_def split: sum.splits option.splits)

text \<open>The three ways \<open>receiveDecrypt\<close> fails: the frame, the decryption, the plaintext.\<close>

lemma receiveDecrypt_fails_iff:
  "snd (receiveDecrypt L key conn) \<noteq> None \<longleftrightarrow>
     (\<exists>e. gobDecodeBytes L (incoming conn) = Inl e) \<or>
     (\<exists>c e. gobDecodeBytes L (incoming conn) = Inr c \<and> NewReader L key c = Inl e) \<or>
     (\<exists>c p e. gobDecodeBytes L (incoming conn) = Inr c \<and> NewReader L key c = Inr p \<and>
              gobDecodeMessage L p = Inl e)"
  by (auto simp: receiveDecrypt_def split: sum.splits)

text \<open>
  Claim C8. When \<open>receiveDecrypt\<close> fails, \<open>handleConn\<close> returns with the connection closed,
  nothing written to it and no call of \<open>encryptDispatch\<close> on it (a call would have
  increased the counter); the history table is untouched.
\<close>

theorem handleConn_silent_on_receive_failure:
  assumes "snd (receiveDecrypt (lib S) (Key S) conn) = Some err"
  shows "handleConn S db conn = Returned (conn\<lparr>closed := True\<rparr>) db \<and>
         outgoing (conn\<lparr>closed := True\<rparr>) = outgoing conn \<and>
         dispatch_calls (conn\<lparr>closed := True\<rparr>) = dispatch_calls conn \<and>
         dispatch_calls (fst (encryptDispatch (lib S) (Key S) conn m)) = Suc (dispatch_calls conn)"
proof -
  obtain msg where "receiveDecrypt (lib S) (Key S) conn = (msg, Some err)"
    using assms by (cases "receiveDecrypt (lib S) (Key S) conn") simp
  then have "handleConn S db conn = Returned (conn\<lparr>closed := True\<rparr>) db"
    by (simp add: handleConn_def)
  then show ?thesis by (simp add: encryptDispatch_counts)
qed

theorem handleConn_silent_on_receive_failure_witness:
  "snd (receiveDecrypt (lib server0) (Key server0) (conn0\<lparr>incoming := ''..|hi''\<rparr>)) =
     Some (LibError ''decrypt'') \<and>
   handleConn server0 [] (conn0\<lparr>incoming := ''..|hi''\<rparr>) =
     Returned (conn0\<lparr>incoming := ''..|hi'', closed := True\<rparr>) []"
proof -
  have r: "snd (receiveDecrypt (lib server0) (Key server0) (conn0\<lparr>incoming := ''..|hi''\<rparr>)) =
     Some (LibError ''decrypt'')"
    by (simp add: receiveDecrypt_def server0_def demo_codec_def get_string_def conn0_def)
  from handleConn_silent_on_receive_failure [OF r, of "[]"] r show ?thesis by simp
qed

text \<open>
  Claim C2. For a \<^verbatim>\<open>STATS\<close> message whose two queries succeed, the reply that
  \<open>handleConn\<close> sends has the empty payload, whatever the queries returned: the
  concatenation is assigned to the variable declared inside the case. The concatenation
  itself is never empty.
\<close>

theorem handleConn_STATS_reply:
  assumes "receiveDecrypt (lib S) (Key S) conn = (msg, None)" and "Type msg = STATS"
    and "TopK S db \<lparr>QUser = ''%'', QHost = ''%'', QCommand = ''%'', Kappa = 20, Format = []\<rparr> = (res1, None)"
    and "LastK S db \<lparr>QUser = ''%'', QHost = ''%'', QCommand = ''%'', Kappa = 10, Format = []\<rparr> = (res2, None)"
  shows "handleConn S db conn =
           Returned ((fst (encryptDispatch (lib S) (Key S) conn
                      \<lparr>Type = RESULT, Payload = [], User = [], Hostname = [],
                       QParams = QueryParams0\<rparr>))\<lparr>closed := True\<rparr>) db
         \<and> res1 @ [NL, NL] @ res2 \<noteq> []"
  using assms
  by (simp add: handleConn_def send_reply_def STATS_def HISTORY_def Let_def split: prod.splits)

theorem handleConn_STATS_reply_witness:
  "receiveDecrypt (lib server0) (Key server0)
      (peer (fst (encryptDispatch demo_codec ''secret'' conn0 stats_request))) = (stats_request, None) \<and>
   Type stats_request = STATS \<and>
   TopK server0 [] \<lparr>QUser = ''%'', QHost = ''%'', QCommand = ''%'', Kappa = 20, Format = []\<rparr> =
     (''Top-20 commands:'', None) \<and>
   LastK server0 [] \<lparr>QUser = ''%'', QHost = ''%'', QCommand = ''%'', Kappa = 10, Format = []\<rparr> =
     (''Last 10 commands:'', None) \<and>
   handleConn server0 [] (peer (fst (encryptDispatch demo_codec ''secret'' conn0 stats_request))) =
     Returned ((fst (encryptDispatch demo_codec ''secret''
                 (peer (fst (encryptDispatch demo_codec ''secret'' conn0 stats_request)))
                 \<lparr>Type = RESULT, Payload = [], User = [], Hostname = [],
                  QParams = QueryParams0\<rparr>))\<lparr>closed := True\<rparr>) []"
proof -
  let ?c = "peer (fst (encryptDispatch demo_codec ''secret'' conn0 stats_request))"
  have l: "lib server0 = demo_codec" and k: "Key server0 = ''secret''"
    by (simp_all add: server0_def)
  have r: "receiveDecrypt (lib server0) (Key server0) ?c = (stats_request, None)"
    by code_simp
  have t: "Type stats_request = STATS" by (simp add: stats_request_def)
  have a: "TopK server0 [] \<lparr>QUser = ''%'', QHost = ''%'', QCommand = ''%'', Kappa = 20, Format = []\<rparr> =
     (''Top-20 commands:'', None)" by (simp add: server0_def)
  have b: "LastK server0 [] \<lparr>QUser = ''%'', QHost = ''%'', QCommand = ''%'', Kappa = 10, Format = []\<rparr> =
     (''Last 10 commands:'', None)" by (simp add: server0_def)
  from handleConn_STATS_reply [OF r t a b] r t a b show ?thesis
    unfolding l k by simp
qed

subsection \<open>Client session\<close>

text \<open>
  Claim C7. For the operations import, stats and query, once the request is sent: a reply
  that decodes makes \<open>ClientMode\<close> return no error whatever the reply's type, and the
  payload is printed only for a \<^verbatim>\<open>RESULT\<close> reply to a stats or query request; a reply
  that fails to decode makes \<open>ClientMode\<close> return that error.
\<close>

theorem ClientMode_reply_decoded:
  assumes op: "Operation C \<noteq> OP_OTHER"
    and sent: "encryptDispatch L (conf_Key C) conn (request C history) = (conn', None)"
  shows "(receiveDecrypt L (conf_Key C) conn' = (reply, None) \<longrightarrow>
            ClientMode L C (Inr conn) (Inr history) =
              (None, if Operation C \<noteq> OP_IMPORT \<and> Type reply = RESULT then [Payload reply] else []))
       \<and> (receiveDecrypt L (conf_Key C) conn' = (reply, Some err) \<longrightarrow>
            ClientMode L C (Inr conn) (Inr history) = (Some err, []))"
  using assms
  by (cases "Operation C")
     (auto simp: ClientMode_def request_reply_def request_def Let_def)

theorem ClientMode_reply_decoded_witness:
  "Operation conf0 \<noteq> OP_OTHER \<and>
   snd (encryptDispatch demo_codec (conf_Key conf0) reply_conn (request conf0 [])) = None \<and>
   receiveDecrypt demo_codec (conf_Key conf0)
     (fst (encryptDispatch demo_codec (conf_Key conf0) reply_conn (request conf0 []))) =
     (history_reply, None) \<and>
   ClientMode demo_codec conf0 (Inr reply_conn) (Inr []) = (None, [])"
proof -
  let ?c = "fst (encryptDispatch demo_codec (conf_Key conf0) reply_conn (request conf0 []))"
  have o: "Operation conf0 \<noteq> OP_OTHER" by (simp add: conf0_def)
  have s: "snd (encryptDispatch demo_codec (conf_Key conf0) reply_conn (request conf0 [])) = None"
    by code_simp
  then have e: "encryptDispatch demo_codec (conf_Key conf0) reply_conn (request conf0 []) = (?c, None)"
    by (simp add: prod_eq_iff)
  have r: "receiveDecrypt demo_codec (conf_Key conf0) ?c = (history_reply, None)"
    by code_simp
  have t: "Type history_reply \<noteq> RESULT" by code_simp
  have i: "Operation conf0 \<noteq> OP_IMPORT" by (simp add: conf0_def)
  from ClientMode_reply_decoded [OF o e, of history_reply] r t o s show ?thesis by simp
qed

text \<open>
  A reply of type \<^verbatim>\<open>HISTORY\<close> decodes, is not a \<^verbatim>\<open>RESULT\<close>, and the session ends with no
  error and nothing printed, for each of the three operations.
\<close>

theorem ClientMode_ignores_other_reply:
  "receiveDecrypt demo_codec (conf_Key conf0) reply_conn = (history_reply, None) \<and>
   Type history_reply \<noteq> RESULT \<and>
   ClientMode demo_codec conf0 (Inr reply_conn) (Inr []) = (None, []) \<and>
   ClientMode demo_codec (conf0\<lparr>Operation := OP_QUERY\<rparr>) (Inr reply_conn) (Inr []) = (None, []) \<and>
   ClientMode demo_codec (conf0\<lparr>Operation := OP_IMPORT\<rparr>) (Inr reply_conn) (Inr []) = (None, [])"
  by code_simp


section \<open>Properties of the schema and the migration\<close>

lemma index_of_Some: "index_of xs x = Some i \<Longrightarrow> i < length xs \<and> xs ! i = x"
proof (induction xs arbitrary: i)
  case Nil
  then show ?case by simp
next
  case (Cons y ys)
  then show ?case by (auto split: if_splits)
qed

lemma index_of_differ:
  "index_of xs x = Some i \<Longrightarrow> index_of xs y = Some j \<Longrightarrow> x \<noteq> y \<Longrightarrow> i \<noteq> j"
  using index_of_Some [of xs x i] index_of_Some [of xs y j] by auto

text \<open>Rows with pairwise different, non-NULL timestamps go into the new table unchanged.\<close>

lemma insert_rows_connlog:
  assumes "cols t = [''datetime'', ''remote'']" and "primary_key t = [''datetime'']"
    and "list_all (\<lambda>r. length r = 2 \<and> cell r 0 \<noteq> Null) rs"
    and "distinct (map (\<lambda>r. cell r 0) (rows t @ rs))"
  shows "insert_rows t rs = Inr (t\<lparr>rows := rows t @ rs\<rparr>)"
  using assms
proof (induction rs arbitrary: t)
  case Nil
  then show ?case by simp
next
  case (Cons r rs)
  have nk: "\<not> list_ex (same_key t r) (rows t)"
    using Cons.prems(1,2,4)
    by (auto simp: list_ex_iff same_key_def sql_eq_def)
  have ins: "insert_row t r = Inr (t\<lparr>rows := rows t @ [r]\<rparr>)"
    using Cons.prems(1,3) nk by (simp add: insert_row_def)
  have "insert_rows (t\<lparr>rows := rows t @ [r]\<rparr>) rs =
          Inr (t\<lparr>rows := rows t @ [r]\<rparr>\<lparr>rows := rows (t\<lparr>rows := rows t @ [r]\<rparr>) @ rs\<rparr>)"
    by (rule Cons.IH) (use Cons.prems in simp_all)
  with ins show ?case by simp
qed

lemma filter_map_same:
  "(\<And>x. P (f x) = P x) \<Longrightarrow> filter P (map f xs) = map f (filter P xs)"
  by (induction xs) simp_all

lemma cell_update_other: "i \<noteq> j \<Longrightarrow> cell (r[i := v]) j = cell r j"
  by (simp add: cell_def)

lemma cell_update_same: "i < length r \<Longrightarrow> cell (r[i := v]) i = v"
  by (simp add: cell_def)

text \<open>Updating the version row.\<close>

lemma QueryRow_version_update:
  assumes q: "QueryRow_version d = Inr v0"
    and adm: "tables tx ''admin'' = tables d ''admin''"
  shows "\<exists>tx'. Exec migrate_version tx = (None, tx') \<and> QueryRow_version tx' = Inr VERSION
           \<and> views tx' = views tx
           \<and> (\<forall>n. n \<noteq> ''admin'' \<longrightarrow> tables tx' n = tables tx n)"
proof -
  from q obtain t k v where t: "tables d ''admin'' = Some t"
    and k: "index_of (cols t) ''key'' = Some k" and v: "index_of (cols t) ''value'' = Some v"
    by (auto simp: QueryRow_version_def split: option.splits)
  from q t k v obtain r rest where
    f: "filter (\<lambda>r. LIKE (cell r k) ''version'') (rows t) = r # rest"
    and c: "cell r v = Text v0"
    by (auto simp: QueryRow_version_def split: list.splits val.splits)
  have kv: "v \<noteq> k" using index_of_differ [OF v k] by simp
  from c have vr: "v < length r" by (auto simp: cell_def split: if_splits)
  let ?f = "\<lambda>r. if LIKE (cell r k) ''version'' then r[v := Text VERSION] else r"
  let ?t' = "t\<lparr>rows := map ?f (rows t)\<rparr>"
  let ?tx' = "tx\<lparr>tables := (tables tx)(''admin'' \<mapsto> ?t')\<rparr>"
  have e: "Exec migrate_version tx = (None, ?tx')"
    using t k v adm by (simp add: migrate_version_def)
  have same: "LIKE (cell (?f x) k) ''version'' = LIKE (cell x k) ''version''" for x
    using kv by (simp add: cell_update_other)
  have "filter (\<lambda>r. LIKE (cell r k) ''version'') (map ?f (rows t)) =
          map ?f (filter (\<lambda>r. LIKE (cell r k) ''version'') (rows t))"
    by (rule filter_map_same) (rule same)
  also have "\<dots> = ?f r # map ?f rest" by (simp add: f)
  finally have f': "filter (\<lambda>r. LIKE (cell r k) ''version'') (map ?f (rows t)) = ?f r # map ?f rest" .
  have lk: "LIKE (cell r k) ''version''"
    using f by (metis (mono_tags, lifting) filter_eq_ConsD)
  have "cell (?f r) v = Text VERSION" using lk vr by (simp add: cell_update_same)
  then have "QueryRow_version ?tx' = Inr VERSION"
    using k v f' by (simp add: QueryRow_version_def)
  with e show ?thesis by auto
qed

text \<open>The schema statements of the migration on a store at version 1.\<close>

lemma Exec_migrate_schema:
  assumes v1: "is_v1_store d"
  shows "\<exists>tx. Exec migrate_schema d = (None, tx)
           \<and> tables tx ''admin'' = tables d ''admin''
           \<and> tables tx ''connlog'' =
               Some \<lparr>cols = [''datetime'', ''remote''], primary_key = [''datetime''],
                     rows = connlog_rows d\<rparr>
           \<and> tables tx ''rlookup'' =
               Some \<lparr>cols = [''ip'', ''reverse''], primary_key = [''ip''], rows = []\<rparr>
           \<and> views tx ''connections'' =
               Some \<lparr>sel = [''datetime'', ''remote'', ''reverse''], from_table = ''connlog'',
                     join_kind = LEFT_JOIN, join_table = ''rlookup'', on_left = ''remote'',
                     on_right = ''ip''\<rparr>
           \<and> list_all (\<lambda>r. length r = 2) (connlog_rows d)
           \<and> length (connlog_rows d) = length (rows (the (tables d ''connlog'')))"
proof -
  from v1 obtain t i j where t: "tables d ''connlog'' = Some t"
    and i: "index_of (cols t) ''datetime'' = Some i" and j: "index_of (cols t) ''remote'' = Some j"
    and shape: "list_all (\<lambda>r. length r = length (cols t) \<and> cell r i \<noteq> Null) (rows t)"
    and dist: "distinct (map (\<lambda>r. cell r i) (rows t))"
    by (auto simp: is_v1_store_def split: option.splits)
  from v1 have free:
    "tables d ''connlog_new'' = None" "views d ''connlog_new'' = None"
    "tables d ''rlookup'' = None" "views d ''rlookup'' = None"
    "tables d ''connections'' = None" "views d ''connections'' = None"
    "views d ''connlog'' = None"
    by (simp_all add: is_v1_store_def name_taken_def)
  let ?rs = "map (\<lambda>r. [cell r i, cell r j]) (rows t)"
  have sel: "select_cols t [''datetime'', ''remote''] = Inr ?rs"
    by (simp add: select_cols_def i j)
  then have cr: "connlog_rows d = ?rs" by (simp add: connlog_rows_def t)
  let ?T0 = "\<lparr>cols = [''datetime'', ''remote''], primary_key = [''datetime''], rows = []\<rparr>"
  have a: "list_all (\<lambda>r. length r = 2 \<and> cell r 0 \<noteq> Null) ?rs"
    using shape index_of_Some [OF i] by (auto simp: list_all_iff cell_def)
  have "cell [cell r i, cell r j] 0 = cell r i" for r
    by (simp add: cell_def)
  then have "map (\<lambda>r. cell r 0) ?rs = map (\<lambda>r. cell r i) (rows t)"
    by (simp add: comp_def)
  then have b: "distinct (map (\<lambda>r. cell r 0) (rows ?T0 @ ?rs))" using dist by (simp only: table.simps append_Nil)
  have ins: "insert_rows ?T0 ?rs = Inr (?T0\<lparr>rows := rows ?T0 @ ?rs\<rparr>)"
    by (rule insert_rows_connlog [OF _ _ a b]) simp_all
  have ex: "Exec migrate_schema d =
     (None, d\<lparr>tables := (tables d)(''connlog_new'' := None,
                  ''connlog'' \<mapsto> \<lparr>cols = [''datetime'', ''remote''], primary_key = [''datetime''],
                                   rows = ?rs\<rparr>,
                  ''rlookup'' \<mapsto> \<lparr>cols = [''ip'', ''reverse''], primary_key = [''ip''], rows = []\<rparr>),
               views := (views d)(''connections'' \<mapsto>
                  \<lparr>sel = [''datetime'', ''remote'', ''reverse''], from_table = ''connlog'',
                   join_kind = LEFT_JOIN, join_table = ''rlookup'', on_left = ''remote'',
                   on_right = ''ip''\<rparr>)\<rparr>)"
    using t free sel ins
    by (simp add: migrate_schema_def name_taken_def fun_upd_twist)
  have c: "list_all (\<lambda>r. length r = 2) (connlog_rows d)" by (simp add: cr list_all_iff)
  have l: "length (connlog_rows d) = length (rows (the (tables d ''connlog'')))"
    by (simp add: cr t)
  show ?thesis using ex c l by (simp add: cr)
qed

lemma select_view_migrated:
  assumes c: "tables d ''connlog'' =
               Some \<lparr>cols = [''datetime'', ''remote''], primary_key = [''datetime''], rows = rs\<rparr>"
    and r: "tables d ''rlookup'' =
               Some \<lparr>cols = [''ip'', ''reverse''], primary_key = [''ip''], rows = []\<rparr>"
    and v: "views d ''connections'' =
               Some \<lparr>sel = [''datetime'', ''remote'', ''reverse''], from_table = ''connlog'',
                     join_kind = LEFT_JOIN, join_table = ''rlookup'', on_left = ''remote'',
                     on_right = ''ip''\<rparr>"
    and two: "list_all (\<lambda>r. length r = 2) rs"
  shows "select_view d ''connections'' = Inr (map (\<lambda>r. r @ [Null]) rs)"
proof -
  let ?ta = "\<lparr>cols = [''datetime'', ''remote''], primary_key = [''datetime''], rows = rs\<rparr>"
  let ?tb = "\<lparr>cols = [''ip'', ''reverse''], primary_key = [''ip''], rows = []\<rparr>"
  have row: "map (column_value ?ta l ?tb [Null, Null]) [''datetime'', ''remote'', ''reverse''] = l @ [Null]"
    if "length l = 2" for l
  proof -
    from that obtain a b where "l = [a, b]"
      by (cases l; cases "tl l") auto
    then show ?thesis by (simp add: column_value_def cell_def)
  qed
  have "map (\<lambda>l. [map (column_value ?ta l ?tb [Null, Null]) [''datetime'', ''remote'', ''reverse'']]) rs =
        map (\<lambda>r. [r @ [Null]]) rs"
  proof (rule map_cong [OF refl])
    fix l assume "l \<in> set rs"
    with two have "length l = 2" by (simp add: list_all_iff)
    then show "[map (column_value ?ta l ?tb [Null, Null]) [''datetime'', ''remote'', ''reverse'']] =
               [l @ [Null]]"
      by (simp only: row)
  qed
  then have "concat (map (\<lambda>l. [map (column_value ?ta l ?tb [Null, Null])
                                  [''datetime'', ''remote'', ''reverse'']]) rs) =
             map (\<lambda>r. r @ [Null]) rs"
    by (simp only: concat_map_singleton)
  then show ?thesis
    by (simp add: select_view_def c r v resolves_def numeral_2_eq_2)
qed

lemma migrate_v1:
  assumes v1: "is_v1_store d" and b: "begin_error E = None" and c: "commit_error E = None"
  shows "\<exists>d'. migrate E d = (None, d')
          \<and> QueryRow_version d' = Inr VERSION
          \<and> select_view d' ''connections'' = Inr (map (\<lambda>r. r @ [Null]) (connlog_rows d))
          \<and> (\<forall>t. tables d ''connlog'' = Some t \<longrightarrow> length (connlog_rows d) = length (rows t))"
proof -
  from v1 have q: "QueryRow_version d = Inr ''1''" by (simp add: is_v1_store_def)
  from Exec_migrate_schema [OF v1] obtain tx where
    s: "Exec migrate_schema d = (None, tx)"
    and adm: "tables tx ''admin'' = tables d ''admin''"
    and cl: "tables tx ''connlog'' =
               Some \<lparr>cols = [''datetime'', ''remote''], primary_key = [''datetime''],
                     rows = connlog_rows d\<rparr>"
    and rl: "tables tx ''rlookup'' =
               Some \<lparr>cols = [''ip'', ''reverse''], primary_key = [''ip''], rows = []\<rparr>"
    and vw: "views tx ''connections'' =
               Some \<lparr>sel = [''datetime'', ''remote'', ''reverse''], from_table = ''connlog'',
                     join_kind = LEFT_JOIN, join_table = ''rlookup'', on_left = ''remote'',
                     on_right = ''ip''\<rparr>"
    and two: "list_all (\<lambda>r. length r = 2) (connlog_rows d)"
    and len: "length (connlog_rows d) = length (rows (the (tables d ''connlog'')))"
    by blast
  from QueryRow_version_update [OF q adm] obtain tx' where
    u: "Exec migrate_version tx = (None, tx')" and q': "QueryRow_version tx' = Inr VERSION"
    and vs: "views tx' = views tx"
    and ts: "\<forall>n. n \<noteq> ''admin'' \<longrightarrow> tables tx' n = tables tx n"
    by blast
  have m: "migrate E d = (None, tx')"
    using q b c s u by (simp add: migrate_def)
  have cl': "tables tx' ''connlog'' =
               Some \<lparr>cols = [''datetime'', ''remote''], primary_key = [''datetime''],
                     rows = connlog_rows d\<rparr>"
    using ts cl by simp
  have rl': "tables tx' ''rlookup'' =
               Some \<lparr>cols = [''ip'', ''reverse''], primary_key = [''ip''], rows = []\<rparr>"
    using ts rl by simp
  have vw': "views tx' ''connections'' =
               Some \<lparr>sel = [''datetime'', ''remote'', ''reverse''], from_table = ''connlog'',
                     join_kind = LEFT_JOIN, join_table = ''rlookup'', on_left = ''remote'',
                     on_right = ''ip''\<rparr>"
    using vs vw by simp
  have sv: "select_view tx' ''connections'' = Inr (map (\<lambda>r. r @ [Null]) (connlog_rows d))"
    by (rule select_view_migrated [OF cl' rl' vw' two])
  have "\<forall>t. tables d ''connlog'' = Some t \<longrightarrow> length (connlog_rows d) = length (rows t)"
    using len by simp
  with m q' sv show ?thesis by blast
qed

lemma migrate_atomic:
  "migrate E d = (err, d') \<Longrightarrow>
     d' = d \<or> (err = None \<and> (\<exists>tx. Exec migrate_schema d = (None, tx) \<and>
                                   Exec migrate_version tx = (None, d')))"
  by (auto simp: migrate_def split: sum.splits option.splits prod.splits if_splits)

text \<open>
  Claim C6. For a store at version 1, when \<^verbatim>\<open>Begin\<close> and \<^verbatim>\<open>Commit\<close> succeed, \<open>migrate\<close> returns
  no error and leaves a store whose recorded version is \<open>VERSION\<close> and whose view
  \<^verbatim>\<open>connections\<close> has one row for each row of the old connection log, with its timestamp
  and address and a NULL reverse lookup. Whatever the store and the engine, \<open>migrate\<close>
  leaves either the store it found or the store with both the schema statements and the
  version update applied. On a store at \<open>VERSION\<close> it changes nothing and returns no
  error; on a version that is neither 1 nor \<open>VERSION\<close> it returns an error and changes
  nothing.
\<close>

theorem migrate_correct:
  "(is_v1_store d \<and> begin_error E = None \<and> commit_error E = None \<longrightarrow>
      (\<exists>d'. migrate E d = (None, d')
          \<and> QueryRow_version d' = Inr VERSION
          \<and> select_view d' ''connections'' = Inr (map (\<lambda>r. r @ [Null]) (connlog_rows d))
          \<and> (\<forall>t. tables d ''connlog'' = Some t \<longrightarrow> length (connlog_rows d) = length (rows t))))
   \<and> (\<forall>err d'. migrate E d = (err, d') \<longrightarrow>
         d' = d \<or> (err = None \<and> (\<exists>tx. Exec migrate_schema d = (None, tx) \<and>
                                       Exec migrate_version tx = (None, d'))))
   \<and> (QueryRow_version d = Inr VERSION \<longrightarrow> migrate E d = (None, d))
   \<and> (\<forall>v. QueryRow_version d = Inr v \<and> v \<noteq> ''1'' \<and> v \<noteq> VERSION \<longrightarrow>
         migrate E d =
           (Some (ErrorString ''Database version different than code version but couldn't fix it.''), d))"
proof -
  have 1: "is_v1_store d \<and> begin_error E = None \<and> commit_error E = None \<longrightarrow>
      (\<exists>d'. migrate E d = (None, d')
          \<and> QueryRow_version d' = Inr VERSION
          \<and> select_view d' ''connections'' = Inr (map (\<lambda>r. r @ [Null]) (connlog_rows d))
          \<and> (\<forall>t. tables d ''connlog'' = Some t \<longrightarrow> length (connlog_rows d) = length (rows t)))"
    using migrate_v1 by blast
  have 2: "\<forall>err d'. migrate E d = (err, d') \<longrightarrow>
         d' = d \<or> (err = None \<and> (\<exists>tx. Exec migrate_schema d = (None, tx) \<and>
                                       Exec migrate_version tx = (None, d')))"
    using migrate_atomic by blast
  have 3: "QueryRow_version d = Inr VERSION \<longrightarrow> migrate E d = (None, d)"
    by (simp add: migrate_def VERSION_def)
  have 4: "\<forall>v. QueryRow_version d = Inr v \<and> v \<noteq> ''1'' \<and> v \<noteq> VERSION \<longrightarrow>
         migrate E d =
           (Some (ErrorString ''Database version different than code version but couldn't fix it.''), d)"
    by (simp add: migrate_def)
  from 1 2 3 4 show ?thesis by blast
qed

lemmas store_eval = migrate_def QueryRow_version_def name_taken_def cell_def
  to_lower_def migrate_schema_def migrate_version_def select_cols_def insert_row_def same_key_def
  sql_eq_def VERSION_def select_view_def resolves_def column_value_def initDB_def initDB_schema_def
  empty_store_def LogConn_insert_def connlog_rows_def

theorem migrate_correct_witness:
  "is_v1_store v1_store \<and> begin_error engine0 = None \<and> commit_error engine0 = None \<and>
   connlog_rows v1_store =
     [[Text ''2015-02-10 12:00:00'', Text ''10.0.0.1''], [Text ''2015-02-10 12:05:00'', Text ''10.0.0.2'']] \<and>
   (\<exists>d'. migrate engine0 v1_store = (None, d')
        \<and> QueryRow_version d' = Inr VERSION
        \<and> select_view d' ''connections'' =
            Inr [[Text ''2015-02-10 12:00:00'', Text ''10.0.0.1'', Null],
                 [Text ''2015-02-10 12:05:00'', Text ''10.0.0.2'', Null]])"
proof -
  have v: "is_v1_store v1_store" by (simp add: is_v1_store_def v1_store_def store_eval)
  have b: "begin_error engine0 = None" and c: "commit_error engine0 = None"
    by (simp_all add: engine0_def)
  have r: "connlog_rows v1_store =
     [[Text ''2015-02-10 12:00:00'', Text ''10.0.0.1''], [Text ''2015-02-10 12:05:00'', Text ''10.0.0.2'']]"
    by (simp add: v1_store_def store_eval)
  from migrate_correct [of v1_store engine0] v b c
  have "\<exists>d'. migrate engine0 v1_store = (None, d')
          \<and> QueryRow_version d' = Inr VERSION
          \<and> select_view d' ''connections'' = Inr (map (\<lambda>r. r @ [Null]) (connlog_rows v1_store))"
    by blast
  with v b c r show ?thesis by simp
qed

text \<open>
  Claim C9. The two definitions of the view \<^verbatim>\<open>connections\<close> are not the same query: with
  the same rows in \<^verbatim>\<open>connlog\<close> and the same (empty) \<^verbatim>\<open>rlookup\<close>, the view of the store
  created by \<open>initDB\<close> has no row and the view of the migrated store has both
  connections.
\<close>

theorem connections_views_differ:
  "tables fresh_store ''connlog'' = tables migrated_store ''connlog'' \<and>
   tables fresh_store ''rlookup'' = tables migrated_store ''rlookup'' \<and>
   select_view fresh_store ''connections'' = Inr [] \<and>
   select_view migrated_store ''connections'' =
     Inr [[Text ''2015-02-10 12:00:00'', Text ''10.0.0.1'', Null],
          [Text ''2015-02-10 12:05:00'', Text ''10.0.0.2'', Null]]"
  by (simp add: fresh_store_def migrated_store_def v1_store_def engine0_def store_eval)


end
